theory Spec2Isabelle
  imports Main "HOL-Library.Word"
begin

unbundle bit_operations_syntax

section \<open>Message codec (gottyclient: tag constants, gottyMessageType, initMessageType)\<close>

text \<open>
  A wire byte is an 8-bit word. The Go constants are rune literals: \<open>'0'\<close> is 48 (0x30),
  \<open>'1'\<close> is 49 and so on.
\<close>

type_synonym byte = "8 word"

text \<open>message types for gotty (protocol revision 1)\<close>

definition OutputV1 :: byte where "OutputV1 = 0x30"
definition PongV1 :: byte where "PongV1 = 0x31"
definition SetWindowTitleV1 :: byte where "SetWindowTitleV1 = 0x32"
definition SetPreferencesV1 :: byte where "SetPreferencesV1 = 0x33"
definition SetReconnectV1 :: byte where "SetReconnectV1 = 0x34"

definition InputV1 :: byte where "InputV1 = 0x30"
definition PingV1 :: byte where "PingV1 = 0x31"
definition ResizeTerminalV1 :: byte where "ResizeTerminalV1 = 0x32"

text \<open>message types for gotty v2.0\<close>

definition UnknownOutput :: byte where "UnknownOutput = 0x30"
definition Output :: byte where "Output = 0x31"
definition Pong :: byte where "Pong = 0x32"
definition SetWindowTitle :: byte where "SetWindowTitle = 0x33"
definition SetPreferences :: byte where "SetPreferences = 0x34"
definition SetReconnect :: byte where "SetReconnect = 0x35"

definition UnknownInput :: byte where "UnknownInput = 0x30"
definition Input :: byte where "Input = 0x31"
definition Ping :: byte where "Ping = 0x32"
definition ResizeTerminal :: byte where "ResizeTerminal = 0x33"

record gottyMessageType =
  output_tag :: byte
  pong_tag :: byte
  setWindowTitle_tag :: byte
  setPreferences_tag :: byte
  setReconnect_tag :: byte
  input_tag :: byte
  ping_tag :: byte
  resizeTerminal_tag :: byte

text \<open>
  \<open>Client.initMessageType\<close>: the table is chosen by the client's \<open>V2\<close> flag alone.
\<close>

definition initMessageType :: "bool \<Rightarrow> gottyMessageType" where
  "initMessageType v2 =
     (if v2 then
        \<lparr> output_tag = Output, pong_tag = Pong, setWindowTitle_tag = SetWindowTitle,
          setPreferences_tag = SetPreferences, setReconnect_tag = SetReconnect,
          input_tag = Input, ping_tag = Ping, resizeTerminal_tag = ResizeTerminal \<rparr>
      else
        \<lparr> output_tag = OutputV1, pong_tag = PongV1, setWindowTitle_tag = SetWindowTitleV1,
          setPreferences_tag = SetPreferencesV1, setReconnect_tag = SetReconnectV1,
          input_tag = InputV1, ping_tag = PingV1, resizeTerminal_tag = ResizeTerminalV1 \<rparr>)"

text \<open>
  The semantic message kinds of the two directions, and the tag a table gives a kind
  (the field the code reads: \<open>c.message.output\<close>, \<open>c.message.input\<close>, ...).
\<close>

datatype s2c_kind = KOutput | KPong | KSetWindowTitle | KSetPreferences | KSetReconnect

datatype c2s_kind = KInput | KPing | KResizeTerminal

fun s2c_tag :: "gottyMessageType \<Rightarrow> s2c_kind \<Rightarrow> byte" where
  "s2c_tag m KOutput = output_tag m"
| "s2c_tag m KPong = pong_tag m"
| "s2c_tag m KSetWindowTitle = setWindowTitle_tag m"
| "s2c_tag m KSetPreferences = setPreferences_tag m"
| "s2c_tag m KSetReconnect = setReconnect_tag m"

fun c2s_tag :: "gottyMessageType \<Rightarrow> c2s_kind \<Rightarrow> byte" where
  "c2s_tag m KInput = input_tag m"
| "c2s_tag m KPing = ping_tag m"
| "c2s_tag m KResizeTerminal = resizeTerminal_tag m"

definition s2c_tags :: "gottyMessageType \<Rightarrow> byte set" where
  "s2c_tags m = set (map (s2c_tag m) [KOutput, KPong, KSetWindowTitle, KSetPreferences, KSetReconnect])"

definition c2s_tags :: "gottyMessageType \<Rightarrow> byte set" where
  "c2s_tags m = set (map (c2s_tag m) [KInput, KPing, KResizeTerminal])"

text \<open>
  The dispatch of \<open>Client.readLoop\<close>: \<open>switch msg.Data[0]\<close> with the cases
  \<open>c.message.output\<close>, \<open>pong\<close>, \<open>setWindowTitle\<close>, \<open>setPreferences\<close>, \<open>setReconnect\<close>
  in this order (a Go switch takes the first case whose value is equal) and a
  \<open>default\<close> case for every other byte.
\<close>

definition dispatch :: "gottyMessageType \<Rightarrow> byte \<Rightarrow> s2c_kind option" where
  "dispatch m b =
     (if b = output_tag m then Some KOutput
      else if b = pong_tag m then Some KPong
      else if b = setWindowTitle_tag m then Some KSetWindowTitle
      else if b = setPreferences_tag m then Some KSetPreferences
      else if b = setReconnect_tag m then Some KSetReconnect
      else None)"

section \<open>Shutdown signal (poison channel, openPoison, die, ExitLoop)\<close>

text \<open>
  \<open>Client.poison\<close> is an unbuffered \<open>chan bool\<close> made by \<open>NewClient\<close>. Nothing is ever
  sent on it: it is only closed and received from, so its state is open or closed.
  Closing and receiving are atomic operations of the Go runtime (they hold the channel's
  lock), so concurrent calls act in some order, one after the other.
\<close>

datatype chan = Open | Closed

datatype panic = CloseOfClosedChannel | SliceBoundsOutOfRange

datatype poisonReason = committedSuicide | killed

text \<open>\<open>close(ch)\<close>: closing a closed channel panics.\<close>

definition close_chan :: "chan \<Rightarrow> panic + chan" where
  "close_chan ch = (case ch of Open \<Rightarrow> Inr Closed | Closed \<Rightarrow> Inl CloseOfClosedChannel)"

text \<open>
  \<open><-ch\<close>: a receive from a closed channel returns the zero value \<open>false\<close> at once; a
  receive from an open channel nobody sends on does not return (\<open>None\<close>).
\<close>

definition recv :: "chan \<Rightarrow> bool option" where
  "recv ch = (case ch of Closed \<Rightarrow> Some False | Open \<Rightarrow> None)"

text \<open>
  \<open>openPoison\<close>: \<open>close(poison)\<close> under a deferred \<open>recover()\<close>. The result is the channel
  after the call and the returned reason, or a panic that leaves the function. When
  \<open>close\<close> panics the deferred function recovers it, the channel is left as it was and
  the function returns the zero value of \<open>poisonReason\<close>, which is \<open>committedSuicide\<close>
  (\<open>iota\<close> 0). The name \<open>fname\<close> is only logged.
\<close>

definition openPoison :: "string \<Rightarrow> chan \<Rightarrow> panic + chan \<times> poisonReason" where
  "openPoison fname poison_ch =
     (case close_chan poison_ch of
        Inl p \<Rightarrow> Inr (poison_ch, committedSuicide)
      | Inr ch' \<Rightarrow> Inr (ch', committedSuicide))"

text \<open>
  \<open>die\<close>: \<open>wasOpen := <-poison\<close> and \<open>return killed\<close> (a true \<open>wasOpen\<close> is only logged).
  \<open>None\<close> when the receive does not return.
\<close>

definition die :: "string \<Rightarrow> chan \<Rightarrow> poisonReason option" where
  "die fname poison_ch = (case recv poison_ch of None \<Rightarrow> None | Some wasOpen \<Rightarrow> Some killed)"

section \<open>base64.StdEncoding.DecodeString\<close>

text \<open>
  The Go standard library's decoder, as \<open>readLoop\<close> uses it: standard alphabet, padding
  character \<open>=\<close> required, not strict, \<open>\r\<close> and \<open>\n\<close> skipped. The position carried by
  Go's \<open>CorruptInputError\<close> and the partial output returned next to an error are left
  out: \<open>readLoop\<close> reads neither.
\<close>

datatype b64_error = CorruptInputError

definition decodeMap :: "byte \<Rightarrow> byte option" where
  "decodeMap c =
     (if 0x41 \<le> c \<and> c \<le> 0x5A then Some (c - 0x41)
      else if 0x61 \<le> c \<and> c \<le> 0x7A then Some (c - 0x61 + 26)
      else if 0x30 \<le> c \<and> c \<le> 0x39 then Some (c - 0x30 + 52)
      else if c = 0x2B then Some 62
      else if c = 0x2F then Some 63
      else None)"

definition is_newline :: "byte \<Rightarrow> bool" where
  "is_newline c = (c = 0x0A \<or> c = 0x0D)"

definition padChar :: byte where "padChar = 0x3D"

text \<open>
  The end of \<open>decodeQuantum\<close>: up to four 6-bit values \<open>dbuf\<close> (missing ones are 0) are
  joined into \<open>val\<close> and cut into bytes; \<open>dlen - 1\<close> of them are kept.
\<close>

definition quantum_bytes :: "byte list \<Rightarrow> byte list" where
  "quantum_bytes dbuf =
     (let d = map ucast dbuf @ replicate (4 - length dbuf) 0;
          val = push_bit 18 (d ! 0) OR push_bit 12 (d ! 1) OR push_bit 6 (d ! 2) OR (d ! 3) :: 32 word
      in take (length dbuf - 1) [ucast (drop_bit 16 val), ucast (drop_bit 8 val), ucast val])"

text \<open>
  A padding character was read after \<open>j = length dbuf\<close> values of the quantum: with
  \<open>j < 2\<close> the input is corrupt; with \<open>j = 2\<close> a second padding character must follow
  (newlines between them are skipped); after the padding only newlines may follow.
\<close>

definition padding :: "byte list \<Rightarrow> byte list \<Rightarrow> b64_error + byte list" where
  "padding dbuf cs =
     (if length dbuf < 2 then Inl CorruptInputError
      else if length dbuf = 2 then
        (case dropWhile is_newline cs of
           [] \<Rightarrow> Inl CorruptInputError
         | c # cs' \<Rightarrow>
             if c \<noteq> padChar then Inl CorruptInputError
             else if dropWhile is_newline cs' \<noteq> [] then Inl CorruptInputError
             else Inr (quantum_bytes dbuf))
      else if dropWhile is_newline cs \<noteq> [] then Inl CorruptInputError
      else Inr (quantum_bytes dbuf))"

text \<open>
  \<open>Decode\<close> with its calls of \<open>decodeQuantum\<close>, as one pass over the input: \<open>dbuf\<close> holds
  the values of the quantum being read. Input that ends inside a quantum is corrupt.
\<close>

fun decode_from :: "byte list \<Rightarrow> byte list \<Rightarrow> b64_error + byte list" where
  "decode_from dbuf [] = (if dbuf = [] then Inr [] else Inl CorruptInputError)"
| "decode_from dbuf (c # cs) =
     (case decodeMap c of
        Some v \<Rightarrow>
          (if length dbuf = 3 then
             (case decode_from [] cs of
                Inl e \<Rightarrow> Inl e
              | Inr bs \<Rightarrow> Inr (quantum_bytes (dbuf @ [v]) @ bs))
           else decode_from (dbuf @ [v]) cs)
      | None \<Rightarrow>
          if is_newline c then decode_from dbuf cs
          else if c \<noteq> padChar then Inl CorruptInputError
          else padding dbuf cs)"

definition DecodeString :: "byte list \<Rightarrow> b64_error + byte list" where
  "DecodeString s = decode_from [] s"

section \<open>The pump loops\<close>

text \<open>
  What the loops share: the poison channel, the websocket connection (the frames handed
  to \<open>Client.write\<close>, in the order the write mutex lets them through) and the output
  stream \<open>Client.Output\<close> (the bytes written to it). The record of the client extends
  this one, so the loops below run on a client as well.
\<close>

record pump_state =
  poison :: chan
  conn_writes :: "byte list list"
  out :: "byte list"

text \<open>
  One pass through a loop body either goes on to the next pass, returns from the loop
  function, never gets past a blocking operation, or panics.
\<close>

datatype loop_result = Continue | Return poisonReason | Blocked | Panics panic

text \<open>\<open>return openPoison(fname, c.poison)\<close> and \<open>return die(fname, c.poison)\<close>.\<close>

definition return_openPoison :: "string \<Rightarrow> 'a pump_state_scheme \<Rightarrow> 'a pump_state_scheme \<times> loop_result" where
  "return_openPoison fname s =
     (case openPoison fname (poison s) of
        Inl p \<Rightarrow> (s, Panics p)
      | Inr (ch, r) \<Rightarrow> (s\<lparr>poison := ch\<rparr>, Return r))"

definition return_die :: "string \<Rightarrow> 'a pump_state_scheme \<Rightarrow> 'a pump_state_scheme \<times> loop_result" where
  "return_die fname s =
     (case die fname (poison s) of None \<Rightarrow> (s, Blocked) | Some r \<Rightarrow> (s, Return r))"

text \<open>
  \<open>Client.write\<close>: one \<open>Conn.WriteMessage\<close> under the write mutex. The frame is recorded
  whether or not the call returns an error; where a loop looks at that error, it comes
  with the event of the pass.
\<close>

definition write_frame :: "byte list \<Rightarrow> 'a pump_state_scheme \<Rightarrow> 'a pump_state_scheme" where
  "write_frame data s = s\<lparr>conn_writes := conn_writes s @ [data]\<rparr>"

subsection \<open>readLoop\<close>

datatype read_error = CloseError | OtherReadError

text \<open>
  What the \<open>select\<close> of one pass takes: the poison case (ready only once the channel is
  closed) or the message case with what \<open>Conn.ReadMessage\<close> returned. When both are
  ready Go takes either. The poison case cannot be taken while the channel is open: such
  a pass changes nothing.
\<close>

datatype read_event = ReadPoison | ReadMessage "read_error + byte list"

definition ESC :: byte where "ESC = 0x1B"
definition BEL :: byte where "BEL = 0x07"

definition set_title :: "byte list \<Rightarrow> byte list" where
  "set_title newTitle = [ESC, 0x5D, 0x30, 0x3B] @ newTitle @ [BEL]"

definition readLoop_step :: "gottyMessageType \<Rightarrow> read_event \<Rightarrow> 'a pump_state_scheme \<Rightarrow> 'a pump_state_scheme \<times> loop_result" where
  "readLoop_step m ev s =
     (case ev of
        ReadPoison \<Rightarrow>
          (if poison s = Closed then return_die ''readLoop'' s else (s, Continue))
      | ReadMessage (Inl err) \<Rightarrow> return_openPoison ''readLoop'' s
      | ReadMessage (Inr data) \<Rightarrow>
          (case data of
             [] \<Rightarrow> return_openPoison ''readLoop'' s
           | tag # payload \<Rightarrow>
               (case dispatch m tag of
                  Some KOutput \<Rightarrow>
                    (case DecodeString payload of
                       Inl err \<Rightarrow> (s, Continue)
                     | Inr buf \<Rightarrow> (s\<lparr>out := out s @ buf\<rparr>, Continue))
                | Some KPong \<Rightarrow> (s, Continue)
                | Some KSetWindowTitle \<Rightarrow> (s\<lparr>out := out s @ set_title payload\<rparr>, Continue)
                | Some KSetPreferences \<Rightarrow> (s, Continue)
                | Some KSetReconnect \<Rightarrow> (s, Continue)
                | None \<Rightarrow> (s, Continue))))"

text \<open>
  A loop run on the events of its passes. When the events are used up the loop is still
  running: the result is \<open>Continue\<close>.
\<close>

fun run_loop :: "('e \<Rightarrow> 's \<Rightarrow> 's \<times> loop_result) \<Rightarrow> 'e list \<Rightarrow> 's \<Rightarrow> 's \<times> loop_result" where
  "run_loop step [] s = (s, Continue)"
| "run_loop step (e # es) s =
     (case step e s of
        (s', Continue) \<Rightarrow> run_loop step es s'
      | (s', r) \<Rightarrow> (s', r))"

definition readLoop :: "gottyMessageType \<Rightarrow> read_event list \<Rightarrow> 'a pump_state_scheme \<Rightarrow> 'a pump_state_scheme \<times> loop_result" where
  "readLoop m evs s = run_loop (readLoop_step m) evs s"

subsection \<open>writeLoop\<close>

text \<open>
  What one pass of \<open>writeLoop\<close> gets from outside: the error of \<open>goselect.RetrySelect\<close>,
  whether the descriptor of standard input is set afterwards, what \<open>pr.Read(buff)\<close> (the
  escape proxy around standard input, \<open>NewEscapeProxy\<close>, which is not among the sources)
  stored in \<open>buff\<close> and returned as size and error, and whether \<open>Client.write\<close> succeeds.
\<close>

datatype select_error = EINTR | OtherSelectError

datatype io_error = EOF | OtherIOError

record write_event =
  select_err :: "select_error option"
  fd_is_set :: bool
  read_bytes :: "byte list"
  read_size :: int
  read_err :: "io_error option"
  write_ok :: bool

text \<open>
  A callee can only overwrite the elements of the slice it is given: \<open>buff\<close> keeps its
  length (128, from \<open>make([]byte, 128)\<close>) and holds the bytes stored into it, followed by
  what it held before.
\<close>

definition fill :: "byte list \<Rightarrow> byte list \<Rightarrow> byte list" where
  "fill buff bs = take (length buff) (bs @ drop (length bs) buff)"

definition EOT :: byte where "EOT = 4"

definition with_buff :: "byte list \<Rightarrow> 'a pump_state_scheme \<times> loop_result \<Rightarrow> ('a pump_state_scheme \<times> byte list) \<times> loop_result" where
  "with_buff buff sr = ((fst sr, buff), snd sr)"

text \<open>
  One pass of the \<open>for\<close> loop of \<open>writeLoop\<close>. The slice expression \<open>buff[:size]\<close> panics
  when \<open>size\<close> is beyond the capacity of \<open>buff\<close>. After the end-of-transmission frame is
  written the code says \<open>continue\<close>: the loop goes on.
\<close>

definition writeLoop_step ::
  "gottyMessageType \<Rightarrow> write_event \<Rightarrow> 'a pump_state_scheme \<times> byte list \<Rightarrow> ('a pump_state_scheme \<times> byte list) \<times> loop_result" where
  "writeLoop_step m ev sb =
     (let s = fst sb; buff = snd sb in
      if poison s = Closed then with_buff buff (return_die ''writeLoop'' s)
      else if select_err ev \<noteq> None \<and> select_err ev \<noteq> Some EINTR then
        with_buff buff (return_openPoison ''writeLoop'' s)
      else if \<not> fd_is_set ev then ((s, buff), Continue)
      else
        (let buff' = fill buff (read_bytes ev); size = read_size ev in
         case read_err ev of
           Some err \<Rightarrow>
             (if err = EOF then
                (let s' = write_frame [input_tag m, EOT] s in
                 if \<not> write_ok ev then with_buff buff' (return_openPoison ''writeLoop'' s')
                 else ((s', buff'), Continue))
              else with_buff buff' (return_openPoison ''writeLoop'' s))
         | None \<Rightarrow>
             (if size \<le> 0 then ((s, buff'), Continue)
              else if size > int (length buff') then ((s, buff'), Panics SliceBoundsOutOfRange)
              else
                (let s' = write_frame (input_tag m # take (nat size) buff') s in
                 if \<not> write_ok ev then with_buff buff' (return_openPoison ''writeLoop'' s')
                 else ((s', buff'), Continue)))))"

definition new_buff :: "byte list" where
  "new_buff = replicate 128 0"

definition writeLoop :: "gottyMessageType \<Rightarrow> write_event list \<Rightarrow> 'a pump_state_scheme \<Rightarrow> ('a pump_state_scheme \<times> byte list) \<times> loop_result" where
  "writeLoop m evs s = run_loop (writeLoop_step m) evs (s, new_buff)"

subsection \<open>termsizeLoop\<close>

record winsize =
  Rows :: "16 word"
  Columns :: "16 word"

text \<open>
  \<open>syscallTIOCGWINSZ\<close>, which \<open>termsizeLoop\<close> calls for the payload of a ResizeTerminal
  frame, is not among the sources. What the sources hold is the type of the value it
  reports: \<open>winsize\<close>, two \<open>uint16\<close> fields with the tags \<open>json:"rows"\<close> and
  \<open>json:"columns"\<close>. The bytes are taken to be that value marshalled by
  \<open>encoding/json\<close>: an object of the fields in the order of their declaration, under
  the names of their tags, each number in decimal. The argument is the answer of the
  terminal to the size query (\<open>None\<close>: the query failed, and the function returns an
  error).
\<close>

text \<open>An unsigned number in decimal, as \<open>strconv\<close> prints it.\<close>

fun decimal :: "nat \<Rightarrow> byte list" where
  "decimal n = (if n < 10 then [0x30 + of_nat n] else decimal (n div 10) @ [0x30 + of_nat (n mod 10)])"

declare decimal.simps [simp del]

definition winsize_json :: "winsize \<Rightarrow> byte list" where
  "winsize_json ws =
     map of_char (''{'' @ [CHR 0x22] @ ''rows'' @ [CHR 0x22] @ '':'') @ decimal (unat (Rows ws)) @
     map of_char ('','' @ [CHR 0x22] @ ''columns'' @ [CHR 0x22] @ '':'') @ decimal (unat (Columns ws)) @
     map of_char ''}''"

definition syscallTIOCGWINSZ :: "winsize option \<Rightarrow> byte list option" where
  "syscallTIOCGWINSZ q = (case q of None \<Rightarrow> None | Some ws \<Rightarrow> Some (winsize_json ws))"

text \<open>
  The resize both parts of \<open>termsizeLoop\<close> do: query the size; on an error only log; else
  write the tag followed by the bytes (a failed write is only logged).
\<close>

definition send_resize :: "gottyMessageType \<Rightarrow> winsize option \<Rightarrow> 'a pump_state_scheme \<Rightarrow> 'a pump_state_scheme" where
  "send_resize m q s =
     (case syscallTIOCGWINSZ q of
        None \<Rightarrow> s
      | Some b \<Rightarrow> write_frame (resizeTerminal_tag m # b) s)"

text \<open>
  What the \<open>select\<close> of one pass takes: the poison case, or a SIGWINCH notification with
  the terminal's answer to the size query that follows.
\<close>

datatype termsize_event = ResizePoison | ResizeSignal "winsize option"

definition termsizeLoop_step ::
  "gottyMessageType \<Rightarrow> termsize_event \<Rightarrow> 'a pump_state_scheme \<Rightarrow> 'a pump_state_scheme \<times> loop_result" where
  "termsizeLoop_step m ev s =
     (case ev of
        ResizePoison \<Rightarrow>
          (if poison s = Closed then return_die ''termsizeLoop'' s else (s, Continue))
      | ResizeSignal q \<Rightarrow> (send_resize m q s, Continue))"


subsection \<open>pingLoop\<close>

text \<open>
  \<open>for { c.write([]byte{c.message.ping}); time.Sleep(30 * time.Second) }\<close>: a failed
  write is only logged, the poison channel is never looked at, and there is no
  \<open>return\<close>. An event is one expiry of the timer.
\<close>

definition pingLoop_step :: "gottyMessageType \<Rightarrow> unit \<Rightarrow> 'a pump_state_scheme \<Rightarrow> 'a pump_state_scheme \<times> loop_result" where
  "pingLoop_step m tick s = (write_frame [ping_tag m] s, Continue)"

definition pingLoop :: "gottyMessageType \<Rightarrow> nat \<Rightarrow> 'a pump_state_scheme \<Rightarrow> 'a pump_state_scheme \<times> loop_result" where
  "pingLoop m n s = run_loop (pingLoop_step m) (replicate n ()) s"

section \<open>net/url: Parse and String\<close>

text \<open>
  \<open>ParseURL\<close> and the handshake call \<open>url.Parse\<close> and \<open>URL.String\<close> of the Go standard
  library. Their treatment of the scheme is written out: the fragment is cut off at the
  first \<open>#\<close>, control bytes are refused, \<open>getScheme\<close> splits a leading scheme off, the
  scheme is put in lower case, and a relative reference whose first path segment holds
  a colon is refused. What the library does with the rest (authority, port, escapes,
  fragment) is a parameter: \<open>other_error\<close> says whether it refuses the text, and
  \<open>render_rest\<close> is what \<open>String\<close> prints after the scheme and its colon.
\<close>

datatype url_error =
  InvalidControlCharacter | MissingProtocolScheme | FirstPathSegmentColon | OtherURLError

record net_url =
  other_error :: "string \<Rightarrow> bool"
  render_rest :: "string \<Rightarrow> string"

record URL =
  Scheme :: string
  Raw :: string

definition ord :: "char \<Rightarrow> nat" where
  "ord c = of_char c"

definition is_alpha :: "char \<Rightarrow> bool" where
  "is_alpha c = ((97 \<le> ord c \<and> ord c \<le> 122) \<or> (65 \<le> ord c \<and> ord c \<le> 90))"

definition is_scheme_punct :: "char \<Rightarrow> bool" where
  "is_scheme_punct c = ((48 \<le> ord c \<and> ord c \<le> 57) \<or> c = CHR ''+'' \<or> c = CHR ''-'' \<or> c = CHR ''.'')"

definition stringContainsCTLByte :: "string \<Rightarrow> bool" where
  "stringContainsCTLByte s = list_ex (\<lambda>c. ord c < 32 \<or> ord c = 127) s"

text \<open>
  \<open>getScheme\<close>: the loop over the bytes of \<open>rawURL\<close>, with \<open>pre\<close> the bytes before index
  \<open>i\<close> and the list the bytes from \<open>i\<close> on. The result is the scheme and the rest.
\<close>

fun getScheme_from :: "string \<Rightarrow> string \<Rightarrow> string \<Rightarrow> url_error + string \<times> string" where
  "getScheme_from rawURL pre [] = Inr ([], rawURL)"
| "getScheme_from rawURL pre (c # cs) =
     (if is_alpha c then getScheme_from rawURL (pre @ [c]) cs
      else if is_scheme_punct c then
        (if pre = [] then Inr ([], rawURL) else getScheme_from rawURL (pre @ [c]) cs)
      else if c = CHR '':'' then
        (if pre = [] then Inl MissingProtocolScheme else Inr (pre, cs))
      else Inr ([], rawURL))"

definition getScheme :: "string \<Rightarrow> url_error + string \<times> string" where
  "getScheme rawURL = getScheme_from rawURL [] rawURL"

definition to_lower :: "char \<Rightarrow> char" where
  "to_lower c = (if 65 \<le> ord c \<and> ord c \<le> 90 then char_of (ord c + 32) else c)"

definition url_Parse :: "net_url \<Rightarrow> string \<Rightarrow> url_error + URL" where
  "url_Parse lib rawURL =
     (let u = takeWhile (\<lambda>c. c \<noteq> CHR ''#'') rawURL in
      if stringContainsCTLByte u then Inl InvalidControlCharacter
      else if u = ''*'' then
        (if other_error lib rawURL then Inl OtherURLError else Inr \<lparr>Scheme = [], Raw = rawURL\<rparr>)
      else
        (case getScheme u of
           Inl err \<Rightarrow> Inl err
         | Inr (scheme, rest) \<Rightarrow>
             (let scheme' = map to_lower scheme;
                  rest' = takeWhile (\<lambda>c. c \<noteq> CHR ''?'') rest
              in if \<not> (take 1 rest' = ''/'') \<and> scheme' = [] \<and>
                    CHR '':'' \<in> set (takeWhile (\<lambda>c. c \<noteq> CHR ''/'') rest')
                 then Inl FirstPathSegmentColon
                 else if other_error lib rawURL then Inl OtherURLError
                 else Inr \<lparr>Scheme = scheme', Raw = rawURL\<rparr>)))"


section \<open>ParseURL and NewClient\<close>





text \<open>
  The client. The poison channel, the frames written on the connection and the bytes
  written to \<open>Output\<close> are the fields the pump loops share; \<open>has_Conn\<close> says that \<open>Conn\<close>
  is not nil. \<open>Dialer\<close> and \<open>WriteMutex\<close> hold no state of their own here.
\<close>

record Client = pump_state +
  URL :: string
  has_Conn :: bool
  Connected :: bool
  V2 :: bool
  message :: "gottyMessageType option"
  SkipTLSVerify :: bool
  UseProxyFromEnv :: bool
  EscapeKeys :: "byte list"
  WSOrigin :: string
  User :: string
  Password :: string
  AdminPassword :: string
  PathSuffix :: string


text \<open>\<open>ExitLoop\<close>: \<open>openPoison(fname, c.poison)\<close>, the returned reason dropped.\<close>

definition ExitLoop :: "'a pump_state_scheme \<Rightarrow> panic + 'a pump_state_scheme" where
  "ExitLoop c =
     (case openPoison ''ExitLoop'' (poison c) of
        Inl p \<Rightarrow> Inl p
      | Inr (ch, r) \<Rightarrow> Inr (c\<lparr>poison := ch\<rparr>))"

section \<open>Handshake (GetAuthToken, Connect) and Loop\<close>

text \<open>
  The regular expression of \<open>GetAuthToken\<close>, \<open>var gotty_auth_token = '(.*)'\<close>: the
  literal text up to the opening quote, then as many bytes other than a newline as
  possible, then a quote. \<open>match_here\<close> is the match that starts at the head of the
  text (its group 1), \<open>FindStringSubmatch\<close> the leftmost match.
\<close>

definition quote :: char where "quote = CHR 0x27"

definition newline :: char where "newline = CHR 0x0A"

definition token_prefix :: string where
  "token_prefix = ''var gotty_auth_token = '' @ [quote]"

definition match_here :: "string \<Rightarrow> string option" where
  "match_here s =
     (if take (length token_prefix) s = token_prefix then
        (let line = takeWhile (\<lambda>c. c \<noteq> newline) (drop (length token_prefix) s) in
         if quote \<in> set line then Some (rev (tl (dropWhile (\<lambda>c. c \<noteq> quote) (rev line))))
         else None)
      else None)"

fun FindStringSubmatch :: "string \<Rightarrow> string option" where
  "FindStringSubmatch [] = None"
| "FindStringSubmatch (c # cs) =
     (case match_here (c # cs) of
        Some tok \<Rightarrow> Some tok
      | None \<Rightarrow> FindStringSubmatch cs)"

text \<open>
  The text holds the pattern: somewhere the literal prefix, a token without a newline,
  and a closing quote.
\<close>

definition contains_token_pattern :: "string \<Rightarrow> bool" where
  "contains_token_pattern body =
     (\<exists>pre tok post. body = pre @ token_prefix @ tok @ [quote] @ post \<and> newline \<notin> set tok)"

datatype error =
    URLError url_error
  | NewRequestError
  | HTTPError
  | UnknownStatusCode int
  | ReadBodyError
  | CannotFetchAuthToken
  | DialError
  | WriteError
  | NotATerminal
  | SetRawError
  | NilMessageTable

text \<open>
  What the world answers to the calls of the handshake and of \<open>Loop\<close>: the library
  behind \<open>url.Parse\<close>, whether \<open>http.NewRequest\<close> succeeds, the response to the GET
  (\<open>None\<close>: \<open>client.Do\<close> returned an error; a body of \<open>None\<close>: \<open>ioutil.ReadAll\<close> failed),
  whether the dial succeeds, the JSON text \<open>json.Marshal\<close> makes for a token, whether the
  write of that text succeeds, whether standard output is a console and whether it can
  be put in raw mode. How the request is built (the \<open>auth_token.js\<close> path, the headers)
  is not modelled, only whether each step succeeds.
\<close>

record http_response =
  StatusCode :: int
  Body :: "string option"

record world =
  lib :: net_url
  new_request_ok :: bool
  http_do :: "http_response option"
  dial_ok :: bool
  queryJSON :: "string \<Rightarrow> byte list"
  negotiation_write_ok :: bool
  stdout_is_console :: bool
  set_raw_ok :: bool

text \<open>What is done to the outside, in order: the GET, the dial, a sleep, a \<open>go\<close> statement.\<close>

datatype action = HttpGet | WsDial | Sleep nat | Go string

text \<open>
  \<open>GetAuthTokenURL\<close>, \<open>GetWebsocketURL\<close> and \<open>GetURLQuery\<close> fail exactly when \<open>url.Parse\<close>
  of the client's URL fails.
\<close>

definition url_check :: "world \<Rightarrow> Client \<Rightarrow> error option" where
  "url_check w c = (case url_Parse (lib w) (URL c) of Inl err \<Rightarrow> Some (URLError err) | Inr u \<Rightarrow> None)"

definition GetAuthToken :: "world \<Rightarrow> Client \<Rightarrow> (error + string) \<times> action list" where
  "GetAuthToken w c =
     (case url_check w c of
        Some err \<Rightarrow> (Inl err, [])
      | None \<Rightarrow>
          if \<not> new_request_ok w then (Inl NewRequestError, [])
          else
            (case http_do w of
               None \<Rightarrow> (Inl HTTPError, [HttpGet])
             | Some resp \<Rightarrow>
                 if StatusCode resp \<noteq> 200 then (Inl (UnknownStatusCode (StatusCode resp)), [HttpGet])
                 else
                   (case Body resp of
                      None \<Rightarrow> (Inl ReadBodyError, [HttpGet])
                    | Some body \<Rightarrow>
                        (case FindStringSubmatch body of
                           None \<Rightarrow> (Inl CannotFetchAuthToken, [HttpGet])
                         | Some authToken \<Rightarrow> (Inr authToken, [HttpGet])))))"

text \<open>
  \<open>Connect\<close>: the returned error (\<open>None\<close> is \<open>nil\<close>), the client afterwards, and what was
  done. A successful dial sets \<open>Conn\<close> (a new connection, nothing written on it yet) and
  \<open>Connected\<close>, then \<open>initMessageType\<close> runs; the negotiation message is written; after
  100 ms \<open>pingLoop\<close> is started.
\<close>

definition Connect :: "world \<Rightarrow> Client \<Rightarrow> (error option \<times> Client) \<times> action list" where
  "Connect w c =
     (case GetAuthToken w c of
        (Inl err, tr) \<Rightarrow> ((Some err, c), tr)
      | (Inr authToken, tr) \<Rightarrow>
          (case url_check w c of
             Some err \<Rightarrow> ((Some err, c), tr)
           | None \<Rightarrow>
               if \<not> dial_ok w then ((Some DialError, c), tr @ [WsDial])
               else
                 (let c1 = c\<lparr>conn_writes := [], has_Conn := True, Connected := True,
                             message := Some (initMessageType (V2 c))\<rparr>
                  in case url_check w c1 of
                       Some err \<Rightarrow> ((Some err, c1), tr @ [WsDial])
                     | None \<Rightarrow>
                         (let c2 = write_frame (queryJSON w authToken) c1 in
                          if \<not> negotiation_write_ok w then ((Some WriteError, c2), tr @ [WsDial])
                          else ((None, c2), tr @ [WsDial, Sleep 100, Go ''pingLoop''])))))"

section \<open>The running pump\<close>

text \<open>
  The goroutines of a session and the controller \<open>Loop\<close>, run one step at a time in any
  order. A state holds the client the goroutines share, the message table, the buffer
  of \<open>writeLoop\<close>, whether \<open>termsizeLoop\<close> is past
  its initial resize, the state of each goroutine, the counter of the wait group,
  whether an unrecovered panic has ended the process, and whether \<open>Loop\<close> has returned.
\<close>

datatype gstatus = NotStarted | Running | Finished

record system =
  pump :: Client
  table :: gottyMessageType
  wbuff :: "byte list"
  resized :: bool
  termsize_st :: gstatus
  read_st :: gstatus
  write_st :: gstatus
  ping_st :: gstatus
  wg :: int
  crashed :: bool
  returned :: bool

text \<open>
  A step of the schedule: one pass of a loop with its event, a call of \<open>ExitLoop\<close> from
  outside, or \<open>Loop\<close> looking at the wait group.
\<close>

datatype sched_event =
    RunTermsizeInit "winsize option"
  | RunTermsize termsize_event
  | RunRead read_event
  | RunWrite write_event
  | RunPing
  | CallExitLoop
  | LoopWait

text \<open>
  A loop function that returns or panics is over; its deferred \<open>wg.Done()\<close> runs in both
  cases. An unrecovered panic ends the process.
\<close>

definition status_after :: "loop_result \<Rightarrow> gstatus" where
  "status_after r = (case r of Continue \<Rightarrow> Running | Blocked \<Rightarrow> Running | Return x \<Rightarrow> Finished | Panics p \<Rightarrow> Finished)"

definition done_after :: "loop_result \<Rightarrow> int" where
  "done_after r = (if status_after r = Finished then 1 else 0)"

definition crash_after :: "loop_result \<Rightarrow> bool" where
  "crash_after r = (case r of Panics p \<Rightarrow> True | Continue \<Rightarrow> False | Blocked \<Rightarrow> False | Return x \<Rightarrow> False)"

definition sys_step :: "sched_event \<Rightarrow> system \<Rightarrow> system" where
  "sys_step ev y =
     (if crashed y then y
      else case ev of
        RunTermsizeInit q \<Rightarrow>
          (if termsize_st y = Running \<and> \<not> resized y then
             y\<lparr>pump := send_resize (table y) q (pump y), resized := True\<rparr>
           else y)
      | RunTermsize e \<Rightarrow>
          (if termsize_st y = Running \<and> resized y then
             (case termsizeLoop_step (table y) e (pump y) of
                (c, r) \<Rightarrow> y\<lparr>pump := c, termsize_st := status_after r,
                              wg := wg y - done_after r, crashed := crash_after r\<rparr>)
           else y)
      | RunRead e \<Rightarrow>
          (if read_st y = Running then
             (case readLoop_step (table y) e (pump y) of
                (c, r) \<Rightarrow> y\<lparr>pump := c, read_st := status_after r,
                              wg := wg y - done_after r, crashed := crash_after r\<rparr>)
           else y)
      | RunWrite e \<Rightarrow>
          (if write_st y = Running then
             (case writeLoop_step (table y) e (pump y, wbuff y) of
                ((c, b), r) \<Rightarrow> y\<lparr>pump := c, wbuff := b, write_st := status_after r,
                                   wg := wg y - done_after r, crashed := crash_after r\<rparr>)
           else y)
      | RunPing \<Rightarrow>
          (if ping_st y = Running then
             (case pingLoop_step (table y) () (pump y) of
                (c, r) \<Rightarrow> y\<lparr>pump := c, ping_st := status_after r, crashed := crash_after r\<rparr>)
           else y)
      | CallExitLoop \<Rightarrow>
          (case ExitLoop (pump y) of
             Inl p \<Rightarrow> y\<lparr>crashed := True\<rparr>
           | Inr c \<Rightarrow> y\<lparr>pump := c\<rparr>)
      | LoopWait \<Rightarrow>
          (if wg y = 0 then y\<lparr>returned := True\<rparr> else y))"

fun run_system :: "sched_event list \<Rightarrow> system \<Rightarrow> system" where
  "run_system [] y = y"
| "run_system (e # es) y = run_system es (sys_step e y)"

text \<open>
  The state in which \<open>Loop\<close> reaches \<open>wg.Wait()\<close>: three times \<open>wg.Add(1)\<close> and a \<open>go\<close>
  statement, for \<open>termsizeLoop\<close>, \<open>readLoop\<close> and \<open>writeLoop\<close>. \<open>pingLoop\<close> is not among
  them: \<open>Connect\<close> starts it, without the wait group; \<open>ping0\<close> is its state.
\<close>

definition pump_start :: "gottyMessageType \<Rightarrow> gstatus \<Rightarrow> Client \<Rightarrow> system" where
  "pump_start m ping0 c =
     \<lparr> pump = c, table = m, wbuff = new_buff, resized = False,
       termsize_st = Running, read_st = Running, write_st = Running, ping_st = ping0,
       wg = 3, crashed = False, returned = False \<rparr>"

text \<open>
  \<open>Loop\<close> up to \<open>wg.Wait()\<close>: connect unless connected, take standard output as a console,
  put it in raw mode, start the three goroutines. The result is the error \<open>Loop\<close>
  returns at once, or the started pump; with it the client and what was done.
  \<open>ping0\<close> is the state of \<open>pingLoop\<close> when \<open>Loop\<close> is called; a successful \<open>Connect\<close>
  starts it. A client marked connected whose message table was never set makes the
  goroutines dereference nil; that run is not followed (\<open>NilMessageTable\<close>).
\<close>

definition Loop_enter ::
  "world \<Rightarrow> gstatus \<Rightarrow> Client \<Rightarrow> (error + system) \<times> Client \<times> action list" where
  "Loop_enter w ping0 c =
     (case (if \<not> Connected c then Connect w c else ((None, c), [])) of
        ((Some err, c'), tr) \<Rightarrow> (Inl err, c', tr)
      | ((None, c'), tr) \<Rightarrow>
          if \<not> stdout_is_console w then (Inl NotATerminal, c', tr)
          else if \<not> set_raw_ok w then (Inl SetRawError, c', tr)
          else
            (case message c' of
               None \<Rightarrow> (Inl NilMessageTable, c', tr)
             | Some m \<Rightarrow>
                 (Inr (pump_start m (if Go ''pingLoop'' \<in> set tr then Running else ping0) c'),
                  c', tr @ [Go ''termsizeLoop'', Go ''readLoop'', Go ''writeLoop''])))"

text \<open>
  \<open>Loop\<close> run to the end of a schedule: \<open>Some err\<close> when it has returned that error,
  \<open>Some None\<close> when it has returned \<open>nil\<close>, \<open>None\<close> while it has not returned.
\<close>

definition Loop :: "world \<Rightarrow> gstatus \<Rightarrow> sched_event list \<Rightarrow> Client \<Rightarrow> error option option" where
  "Loop w ping0 sch c =
     (case fst (Loop_enter w ping0 c) of
        Inl err \<Rightarrow> Some (Some err)
      | Inr y \<Rightarrow> if returned (run_system sch y) then Some None else None)"

section \<open>Notions used in the statements\<close>

text \<open>
  Signal attempts one after the other, by the callers named: each is a call of
  \<open>openPoison\<close>. A panic that leaves one of them would end the run (\<open>Inl\<close>).
\<close>

fun signals :: "string list \<Rightarrow> chan \<Rightarrow> panic + chan" where
  "signals [] ch = Inr ch"
| "signals (f # fs) ch = (case openPoison f ch of Inl p \<Rightarrow> Inl p | Inr (ch', r) \<Rightarrow> signals fs ch')"

text \<open>The frames written on the connection between a state and a later one.\<close>

definition frames_sent :: "'a pump_state_scheme \<Rightarrow> 'b pump_state_scheme \<Rightarrow> byte list list" where
  "frames_sent s s' = drop (length (conn_writes s)) (conn_writes s')"

definition input_frame :: "gottyMessageType \<Rightarrow> byte list \<Rightarrow> bool" where
  "input_frame m f = (\<exists>payload. f = input_tag m # payload \<and> 1 \<le> length payload \<and> length payload \<le> 128)"

text \<open>A pass of \<open>writeLoop\<close> in which \<open>pr.Read\<close> returns \<open>io.EOF\<close> and the write succeeds.\<close>

definition eof_event :: write_event where
  "eof_event = \<lparr>select_err = None, fd_is_set = True, read_bytes = [], read_size = 0,
                read_err = Some EOF, write_ok = True\<rparr>"

text \<open>A pass of \<open>writeLoop\<close> in which \<open>pr.Read\<close> stores \<open>bs\<close> and returns the size \<open>n\<close>.\<close>

definition data_event :: "byte list \<Rightarrow> int \<Rightarrow> write_event" where
  "data_event bs n = \<lparr>select_err = None, fd_is_set = True, read_bytes = bs, read_size = n,
                       read_err = None, write_ok = True\<rparr>"





text \<open>
  The invariant of the running pump: the counter of the wait group is the number of the
  three joined goroutines that still run, and \<open>Loop\<close> has returned only with the counter
  at zero.
\<close>

fun run1 :: "gstatus \<Rightarrow> int" where
  "run1 Running = 1"
| "run1 NotStarted = 0"
| "run1 Finished = 0"

definition running3 :: "system \<Rightarrow> int" where
  "running3 y = run1 (termsize_st y) + run1 (read_st y) + run1 (write_st y)"

definition pump_inv :: "system \<Rightarrow> bool" where
  "pump_inv y = (wg y = running3 y \<and> termsize_st y \<noteq> NotStarted \<and> read_st y \<noteq> NotStarted \<and>
                 write_st y \<noteq> NotStarted \<and> (returned y \<longrightarrow> wg y = 0))"

text \<open>
  A schedule that lets the pump wind down: \<open>termsizeLoop\<close> does its initial resize if it
  has not yet, then \<open>termsizeLoop\<close> and \<open>readLoop\<close> each do a pass in which \<open>select\<close>
  takes the poison case, \<open>writeLoop\<close> does a pass, and \<open>Loop\<close> looks at the wait group.
\<close>

definition quiesce :: "winsize option \<Rightarrow> write_event \<Rightarrow> sched_event list" where
  "quiesce q e = [RunTermsizeInit q, RunTermsize ResizePoison, RunRead ReadPoison, RunWrite e, LoopWait]"

text \<open>
  Concrete inputs for the examples: a library that refuses nothing and prints the text
  after the scheme as it is, a server that answers the token request, and the client
  \<open>NewClient\<close> makes for \<open>localhost:8080\<close>, before and after a successful \<open>Connect\<close>.
\<close>

definition simple_lib :: net_url where
  "simple_lib = \<lparr>other_error = (\<lambda>raw. False),
                 render_rest = (\<lambda>raw. tl (dropWhile (\<lambda>c. c \<noteq> CHR '':'') raw))\<rparr>"

definition dq :: char where "dq = CHR 0x22"

definition ok_body :: string where
  "ok_body = ''var gotty_auth_token = '' @ [quote] @ ''abc'' @ [quote] @ '';'' @ [newline]"

definition negotiation_json :: "string \<Rightarrow> byte list" where
  "negotiation_json tok =
     map of_char (''{'' @ [dq] @ ''AuthToken'' @ [dq] @ '':'' @ [dq] @ tok @ [dq] @ '','' @
                  [dq] @ ''Arguments'' @ [dq] @ '':'' @ [dq] @ ''?'' @ [dq] @ ''}'')"

definition ok_world :: world where
  "ok_world = \<lparr>lib = simple_lib, new_request_ok = True,
                http_do = Some \<lparr>StatusCode = 200, Body = Some ok_body\<rparr>,
                dial_ok = True, queryJSON = negotiation_json, negotiation_write_ok = True,
                stdout_is_console = True, set_raw_ok = True\<rparr>"

definition client0 :: Client where
  "client0 = \<lparr> poison = Open, conn_writes = [], out = [],
                URL = ''http://localhost:8080'', has_Conn = False, Connected = False, V2 = False,
                message = None, SkipTLSVerify = False, UseProxyFromEnv = False,
                EscapeKeys = [], WSOrigin = [], User = [], Password = [],
                AdminPassword = [], PathSuffix = [] \<rparr>"


definition sched0 :: "sched_event list" where
  "sched0 = [CallExitLoop, RunTermsizeInit None, RunTermsize ResizePoison, RunRead ReadPoison,
             RunWrite eof_event, LoopWait, RunPing]"

definition client1 :: Client where
  "client1 = client0\<lparr>conn_writes := [negotiation_json ''abc''], has_Conn := True, Connected := True,
                     message := Some (initMessageType False)\<rparr>"

text \<open>The error \<open>GetAuthToken\<close> gives for a response it refuses.\<close>

definition auth_token_error :: "http_response \<Rightarrow> error" where
  "auth_token_error resp =
     (if StatusCode resp \<noteq> 200 then UnknownStatusCode (StatusCode resp) else CannotFetchAuthToken)"

text \<open>A server that answers 404, and one whose answer holds no token.\<close>

definition world_404 :: world where
  "world_404 = ok_world\<lparr>http_do := Some \<lparr>StatusCode = 404, Body = Some ''404 page not found''\<rparr>\<rparr>"

definition world_no_token :: world where
  "world_no_token = ok_world\<lparr>http_do := Some \<lparr>StatusCode = 200, Body = Some ''<html></html>''\<rparr>\<rparr>"

section \<open>Properties of the codec\<close>

lemmas tag_defs =
  OutputV1_def PongV1_def SetWindowTitleV1_def SetPreferencesV1_def SetReconnectV1_def
  InputV1_def PingV1_def ResizeTerminalV1_def
  Output_def Pong_def SetWindowTitle_def SetPreferences_def SetReconnect_def
  Input_def Ping_def ResizeTerminal_def

text \<open>
  C2 (as stated, refuted). The claim says the tag sets of the two revisions have no byte
  in common. They do: byte 0x31 (\<open>'1'\<close>) is \<open>PongV1\<close> and \<open>PingV1\<close> in revision 1 and
  \<open>Output\<close> and \<open>Input\<close> in revision 2.
\<close>

theorem tag_tables_overlap:
  "0x31 \<in> s2c_tags (initMessageType False) \<inter> s2c_tags (initMessageType True) \<and>
   0x31 \<in> c2s_tags (initMessageType False) \<inter> c2s_tags (initMessageType True) \<and>
   pong_tag (initMessageType False) = output_tag (initMessageType True) \<and>
   ping_tag (initMessageType False) = input_tag (initMessageType True)"
  by (simp add: s2c_tags_def c2s_tags_def initMessageType_def tag_defs)

text \<open>
  C2 (amended). What the tables do guarantee: every message kind, in either direction,
  has a different tag in the two revisions (the revision-2 tag is the revision-1 tag plus
  one), while the tag sets themselves overlap in exactly 0x31..0x34 (server to client) and
  0x31..0x32 (client to server).
\<close>

theorem tag_tables_differ_per_kind:
  "s2c_tag (initMessageType True) k = s2c_tag (initMessageType False) k + 1 \<and>
   s2c_tag (initMessageType True) k \<noteq> s2c_tag (initMessageType False) k \<and>
   c2s_tag (initMessageType True) k' = c2s_tag (initMessageType False) k' + 1 \<and>
   c2s_tag (initMessageType True) k' \<noteq> c2s_tag (initMessageType False) k' \<and>
   s2c_tags (initMessageType False) \<inter> s2c_tags (initMessageType True) = {0x31, 0x32, 0x33, 0x34} \<and>
   c2s_tags (initMessageType False) \<inter> c2s_tags (initMessageType True) = {0x31, 0x32}"
proof -
  have a: "s2c_tag (initMessageType True) k = s2c_tag (initMessageType False) k + 1"
    by (cases k) (simp_all add: initMessageType_def tag_defs)
  have b: "c2s_tag (initMessageType True) k' = c2s_tag (initMessageType False) k' + 1"
    by (cases k') (simp_all add: initMessageType_def tag_defs)
  have c: "s2c_tags (initMessageType False) \<inter> s2c_tags (initMessageType True) = {0x31, 0x32, 0x33, 0x34}"
    by (auto simp add: s2c_tags_def initMessageType_def tag_defs)
  have d: "c2s_tags (initMessageType False) \<inter> c2s_tags (initMessageType True) = {0x31, 0x32}"
    by (auto simp add: c2s_tags_def initMessageType_def tag_defs)
  from a b c d show ?thesis by simp
qed

text \<open>
  C6. Within one revision the tags of a direction are pairwise distinct: the map from
  kind to tag is injective for both directions, and the dispatch of the read loop takes
  the tag of a server-to-client kind back to that kind.
\<close>

theorem tag_table_injective_roundtrip:
  "inj (s2c_tag (initMessageType v2)) \<and>
   inj (c2s_tag (initMessageType v2)) \<and>
   dispatch (initMessageType v2) (s2c_tag (initMessageType v2) k) = Some k"
proof -
  have r: "dispatch (initMessageType v2) (s2c_tag (initMessageType v2) j) = Some j" for j
    by (cases j; cases v2) (simp_all add: dispatch_def initMessageType_def tag_defs)
  have i1: "inj (s2c_tag (initMessageType v2))"
  proof (rule injI)
    fix x y
    assume "s2c_tag (initMessageType v2) x = s2c_tag (initMessageType v2) y"
    then have "dispatch (initMessageType v2) (s2c_tag (initMessageType v2) x)
             = dispatch (initMessageType v2) (s2c_tag (initMessageType v2) y)"
      by simp
    then show "x = y" by (simp add: r)
  qed
  have i2: "inj (c2s_tag (initMessageType v2))"
  proof (rule injI)
    fix x y
    assume "c2s_tag (initMessageType v2) x = c2s_tag (initMessageType v2) y"
    then show "x = y"
      by (cases x; cases y; cases v2) (simp_all add: initMessageType_def tag_defs)
  qed
  from i1 i2 r show ?thesis by simp
qed

section \<open>Properties of the shutdown signal\<close>

lemma openPoison_closes: "openPoison fname ch = Inr (Closed, committedSuicide)"
  by (cases ch) (simp_all add: openPoison_def close_chan_def)

lemma return_openPoison_eq: "return_openPoison fname s = (s\<lparr>poison := Closed\<rparr>, Return committedSuicide)"
  by (simp add: return_openPoison_def openPoison_closes)

lemma return_die_closed: "poison s = Closed \<Longrightarrow> return_die fname s = (s, Return killed)"
  by (simp add: return_die_def die_def recv_def)

lemma signals_closed: "signals fs Closed = Inr Closed"
  by (induction fs) (simp_all add: openPoison_closes)

text \<open>
  C3. Signalling is idempotent. Whatever the state of the channel, one or more signal
  attempts in a row (concurrent attempts act in some order, \<open>close\<close> being atomic) end
  with the channel closed and no panic leaving \<open>openPoison\<close>; a check of a closed
  channel returns at once (the receive yields \<open>false\<close>, \<open>die\<close> returns \<open>killed\<close>); and
  \<open>ExitLoop\<close> leaves the client with the channel closed, a second time as the first.
\<close>

theorem shutdown_signal_idempotent:
  "signals (f # fs) ch = Inr Closed \<and>
   recv Closed = Some False \<and>
   die g Closed = Some killed \<and>
   ExitLoop c = Inr (c\<lparr>poison := Closed\<rparr>) \<and>
   ExitLoop (c\<lparr>poison := Closed\<rparr>) = Inr (c\<lparr>poison := Closed\<rparr>)"
  by (simp add: openPoison_closes signals_closed recv_def die_def ExitLoop_def)

section \<open>Properties of the loops\<close>

lemma run_loop_invariant:
  assumes "P s" and "\<And>e s. P s \<Longrightarrow> P (fst (step e s))"
  shows "P (fst (run_loop step es s))"
  using assms(1)
proof (induction es arbitrary: s)
  case Nil
  then show ?case by simp
next
  case (Cons e es)
  obtain s' r where sr: "step e s = (s', r)" by (cases "step e s")
  from assms(2) [OF Cons.prems, of e] sr have p': "P s'" by simp
  show ?case
  proof (cases r)
    case Continue
    with sr Cons.IH [OF p'] show ?thesis by simp
  qed (use sr p' in simp_all)
qed

text \<open>
  C5. In \<open>readLoop\<close> a frame whose tag is none of the five tags of the table, and an
  Output frame whose payload is not valid base64, change nothing (nothing is written to
  the output, the poison channel is left alone) and the loop goes on with the next
  frame; an empty frame and any read error close the poison channel and end the loop.
\<close>

theorem readLoop_frames:
  "(tag \<notin> s2c_tags m \<longrightarrow>
      readLoop m (ReadMessage (Inr (tag # payload)) # evs) s = readLoop m evs s) \<and>
   (DecodeString payload = Inl e \<longrightarrow>
      readLoop m (ReadMessage (Inr (output_tag m # payload)) # evs) s = readLoop m evs s) \<and>
   readLoop m (ReadMessage (Inr []) # evs) s = (s\<lparr>poison := Closed\<rparr>, Return committedSuicide) \<and>
   readLoop m (ReadMessage (Inl err) # evs) s = (s\<lparr>poison := Closed\<rparr>, Return committedSuicide)"
proof -
  have a: "readLoop_step m (ReadMessage (Inr (tag # payload))) s = (s, Continue)" if "tag \<notin> s2c_tags m"
  proof -
    from that have "dispatch m tag = None"
      by (simp add: s2c_tags_def dispatch_def)
    then show ?thesis by (simp add: readLoop_step_def)
  qed
  have b: "readLoop_step m (ReadMessage (Inr (output_tag m # payload))) s = (s, Continue)"
    if "DecodeString payload = Inl e"
    using that by (simp add: readLoop_step_def dispatch_def)
  have c: "readLoop_step m (ReadMessage (Inr [])) s = (s\<lparr>poison := Closed\<rparr>, Return committedSuicide)"
    by (simp add: readLoop_step_def return_openPoison_eq)
  have d: "readLoop_step m (ReadMessage (Inl err)) s = (s\<lparr>poison := Closed\<rparr>, Return committedSuicide)"
    by (simp add: readLoop_step_def return_openPoison_eq)
  show ?thesis
    using a b c d by (simp add: readLoop_def)
qed


theorem readLoop_frames_witness:
  "0x39 \<notin> s2c_tags (initMessageType True) \<and>
   DecodeString [0x21] = Inl CorruptInputError \<and>
   readLoop (initMessageType True) [ReadMessage (Inr [0x39, 0x41])]
     \<lparr>poison = Open, conn_writes = [], out = []\<rparr>
     = (\<lparr>poison = Open, conn_writes = [], out = []\<rparr>, Continue) \<and>
   readLoop (initMessageType True) [ReadMessage (Inr [0x31, 0x21])]
     \<lparr>poison = Open, conn_writes = [], out = []\<rparr>
     = (\<lparr>poison = Open, conn_writes = [], out = []\<rparr>, Continue) \<and>
   readLoop (initMessageType True) [ReadMessage (Inr []), ReadMessage (Inr [0x32])]
     \<lparr>poison = Open, conn_writes = [], out = []\<rparr>
     = (\<lparr>poison = Closed, conn_writes = [], out = []\<rparr>, Return committedSuicide)"
proof -
  have t: "0x39 \<notin> s2c_tags (initMessageType True)"
    by (simp add: s2c_tags_def initMessageType_def tag_defs)
  have d: "DecodeString [0x21] = Inl CorruptInputError"
    by (simp add: DecodeString_def decodeMap_def is_newline_def padChar_def)
  have o: "output_tag (initMessageType True) = 0x31"
    by (simp add: initMessageType_def tag_defs)
  have e: "readLoop (initMessageType True) [] \<lparr>poison = Open, conn_writes = [], out = []\<rparr>
             = (\<lparr>poison = Open, conn_writes = [], out = []\<rparr>, Continue)"
    by (simp add: readLoop_def)
  show ?thesis
    using t d o e
      readLoop_frames [where tag = "0x39" and m = "initMessageType True" and payload = "[0x41]"
        and evs = "[]" and s = "\<lparr>poison = Open, conn_writes = [], out = []\<rparr>"]
      readLoop_frames [where tag = "0x39" and m = "initMessageType True" and payload = "[0x21]"
        and evs = "[]" and s = "\<lparr>poison = Open, conn_writes = [], out = []\<rparr>"
        and e = CorruptInputError]
      readLoop_frames [where tag = "0x39" and m = "initMessageType True" and payload = "[0x21]"
        and evs = "[ReadMessage (Inr [0x32])]" and s = "\<lparr>poison = Open, conn_writes = [], out = []\<rparr>"]
    by simp
qed

lemma length_fill: "length (fill buff bs) = length buff"
  by (simp add: fill_def)

text \<open>
  C7 (as stated, refuted). The claim says that on end of input the loop sends one
  end-of-transmission frame and exits. After the frame the code continues: with two
  passes that read \<open>io.EOF\<close> it has sent two such frames and is still running.
\<close>

theorem writeLoop_eof_repeats:
  "writeLoop (initMessageType True) [eof_event, eof_event] \<lparr>poison = Open, conn_writes = [], out = []\<rparr>
     = ((\<lparr>poison = Open, conn_writes = [[0x31, 4], [0x31, 4]], out = []\<rparr>, new_buff), Continue)"
  by (simp add: writeLoop_def writeLoop_step_def eof_event_def write_frame_def Let_def
      initMessageType_def tag_defs EOT_def fill_def new_buff_def)

text \<open>
  C7 (amended). In every pass in which the read returns \<open>io.EOF\<close> the loop writes
  exactly one frame, the Input tag followed by the byte 4. If the write succeeds the
  loop goes on; if it fails the loop closes the poison channel and returns.
\<close>

theorem writeLoop_eof_frame:
  assumes "poison s = Open"
    and "select_err ev = None \<or> select_err ev = Some EINTR"
    and "fd_is_set ev"
    and "read_err ev = Some EOF"
  shows "writeLoop_step m ev (s, buff) =
           (if write_ok ev then
              ((s\<lparr>conn_writes := conn_writes s @ [[input_tag m, 4]]\<rparr>, fill buff (read_bytes ev)), Continue)
            else
              ((s\<lparr>conn_writes := conn_writes s @ [[input_tag m, 4]], poison := Closed\<rparr>,
                fill buff (read_bytes ev)), Return committedSuicide))"
  using assms
  by (auto simp add: writeLoop_step_def Let_def write_frame_def EOT_def with_buff_def
      return_openPoison_eq)


theorem writeLoop_eof_frame_witness:
  "writeLoop_step (initMessageType False) eof_event (\<lparr>poison = Open, conn_writes = [], out = []\<rparr>, new_buff)
     = ((\<lparr>poison = Open, conn_writes = [[0x30, 4]], out = []\<rparr>, new_buff), Continue) \<and>
   writeLoop_step (initMessageType False) (eof_event\<lparr>write_ok := False\<rparr>)
       (\<lparr>poison = Open, conn_writes = [], out = []\<rparr>, new_buff)
     = ((\<lparr>poison = Closed, conn_writes = [[0x30, 4]], out = []\<rparr>, new_buff), Return committedSuicide)"
proof -
  have f: "fill new_buff [] = new_buff"
    by (simp add: fill_def)
  have i: "input_tag (initMessageType False) = 0x30"
    by (simp add: initMessageType_def tag_defs)
  show ?thesis
    using f i
      writeLoop_eof_frame [where s = "\<lparr>poison = Open, conn_writes = [], out = []\<rparr>"
        and ev = eof_event and m = "initMessageType False" and buff = new_buff]
      writeLoop_eof_frame [where s = "\<lparr>poison = Open, conn_writes = [], out = []\<rparr>"
        and ev = "eof_event\<lparr>write_ok := False\<rparr>" and m = "initMessageType False" and buff = new_buff]
    by (simp add: eof_event_def)
qed

lemma writeLoop_step_frames:
  assumes "length buff = 128"
  shows "\<exists>fs. conn_writes (fst (fst (writeLoop_step m ev (s, buff)))) = conn_writes s @ fs \<and>
              (\<forall>f\<in>set fs. input_frame m f) \<and>
              length (snd (fst (writeLoop_step m ev (s, buff)))) = 128"
proof -
  have eot: "input_frame m [input_tag m, EOT]"
    by (simp add: input_frame_def)
  have dat: "input_frame m (input_tag m # take (nat n) (fill buff bs))" if "0 < n" "n \<le> 128" for n bs
  proof -
    from that have "1 \<le> nat n" "nat n \<le> 128" by linarith+
    with assms show ?thesis by (simp add: input_frame_def length_fill)
  qed
  show ?thesis
    using assms eot dat [of "read_size ev" "read_bytes ev"]
    by (auto simp add: writeLoop_step_def Let_def with_buff_def return_openPoison_eq return_die_def
        write_frame_def length_fill split: option.splits)
qed

lemma writeLoop_frames_inv:
  "\<exists>fs. conn_writes (fst (fst (writeLoop m evs s))) = conn_writes s @ fs \<and> (\<forall>f\<in>set fs. input_frame m f)"
proof -
  let ?P = "\<lambda>sb. length (snd sb) = 128 \<and>
                 (\<exists>fs. conn_writes (fst sb) = conn_writes s @ fs \<and> (\<forall>f\<in>set fs. input_frame m f))"
  have init: "?P (s, new_buff)" by (simp add: new_buff_def)
  have step: "?P (fst (writeLoop_step m e sb))" if "?P sb" for e sb
  proof -
    obtain s1 b1 where sb: "sb = (s1, b1)" by (cases sb)
    from that sb obtain fs where l: "length b1 = 128"
      and fs: "conn_writes s1 = conn_writes s @ fs" "\<forall>f\<in>set fs. input_frame m f" by auto
    from writeLoop_step_frames [OF l, of m e s1] obtain gs where
      gs: "conn_writes (fst (fst (writeLoop_step m e (s1, b1)))) = conn_writes s1 @ gs"
        "\<forall>f\<in>set gs. input_frame m f"
        "length (snd (fst (writeLoop_step m e (s1, b1)))) = 128" by blast
    from fs gs have "conn_writes (fst (fst (writeLoop_step m e (s1, b1)))) = conn_writes s @ (fs @ gs)"
      "\<forall>f\<in>set (fs @ gs). input_frame m f" by auto
    with gs(3) sb show ?thesis by blast
  qed
  from run_loop_invariant [of ?P "(s, new_buff)" "writeLoop_step m" evs, OF init step]
  show ?thesis by (simp add: writeLoop_def)
qed

text \<open>
  C10. Every frame \<open>writeLoop\<close> writes is the Input tag followed by at least 1 and at
  most 128 bytes; a read that returns no error and a size of zero or less writes
  nothing.
\<close>

theorem writeLoop_input_frames:
  "conn_writes (fst (fst (writeLoop m evs s)))
     = conn_writes s @ frames_sent s (fst (fst (writeLoop m evs s))) \<and>
   (\<forall>f \<in> set (frames_sent s (fst (fst (writeLoop m evs s)))).
      \<exists>payload. f = input_tag m # payload \<and> 1 \<le> length payload \<and> length payload \<le> 128) \<and>
   (read_err ev = None \<and> read_size ev \<le> 0 \<longrightarrow>
      conn_writes (fst (fst (writeLoop_step m ev (s, buff)))) = conn_writes s)"
proof -
  from writeLoop_frames_inv [of m evs s] obtain fs where
    fs: "conn_writes (fst (fst (writeLoop m evs s))) = conn_writes s @ fs" "\<forall>f\<in>set fs. input_frame m f"
    by blast
  then have "frames_sent s (fst (fst (writeLoop m evs s))) = fs"
    by (simp add: frames_sent_def)
  moreover have "read_err ev = None \<and> read_size ev \<le> 0 \<longrightarrow>
      conn_writes (fst (fst (writeLoop_step m ev (s, buff)))) = conn_writes s"
    by (auto simp add: writeLoop_step_def Let_def with_buff_def return_openPoison_eq return_die_def
        split: option.splits)
  ultimately show ?thesis using fs by (simp add: input_frame_def)
qed

theorem writeLoop_input_frames_witness:
  "frames_sent \<lparr>poison = Open, conn_writes = [], out = []\<rparr>
     (fst (fst (writeLoop (initMessageType True)
        [data_event [0x6C, 0x73, 0x0A] 3, data_event [] 0, eof_event]
        \<lparr>poison = Open, conn_writes = [], out = []\<rparr>)))
     = [[0x31, 0x6C, 0x73, 0x0A], [0x31, 4]] \<and>
   (\<exists>payload. [0x31, 0x6C, 0x73, 0x0A] = input_tag (initMessageType True) # payload \<and>
        1 \<le> length payload \<and> length payload \<le> 128) \<and>
   conn_writes (fst (fst (writeLoop_step (initMessageType True) (data_event [] 0)
        (\<lparr>poison = Open, conn_writes = [], out = []\<rparr>, new_buff)))) = []"
proof -
  let ?s = "\<lparr>poison = Open, conn_writes = [], out = []\<rparr>"
  let ?evs = "[data_event [0x6C, 0x73, 0x0A] 3, data_event [] 0, eof_event]"
  have run: "conn_writes (fst (fst (writeLoop (initMessageType True) ?evs ?s)))
               = [[0x31, 0x6C, 0x73, 0x0A], [0x31, 4]]"
    by (simp add: writeLoop_def writeLoop_step_def data_event_def eof_event_def Let_def fill_def
        new_buff_def write_frame_def initMessageType_def tag_defs EOT_def)
  then have fs: "frames_sent ?s (fst (fst (writeLoop (initMessageType True) ?evs ?s)))
               = [[0x31, 0x6C, 0x73, 0x0A], [0x31, 4]]"
    by (simp add: frames_sent_def)
  have ev: "read_err (data_event [] 0) = None \<and> read_size (data_event [] 0) \<le> 0"
    by (simp add: data_event_def)
  from writeLoop_input_frames [where m = "initMessageType True" and evs = ?evs and s = ?s
      and ev = "data_event [] 0" and buff = new_buff] fs ev
  show ?thesis by simp
qed





lemma foldl_decimal_step:
  "foldl (\<lambda>a b. 10 * a + unat (b - 0x30)) 0 (xs @ [x :: byte])
     = 10 * foldl (\<lambda>a b. 10 * a + unat (b - 0x30)) 0 xs + unat (x - 0x30)"
  by simp








section \<open>Properties of the running pump\<close>

lemma run1_after: "run1 (status_after r) = 1 - done_after r"
  by (cases r) (simp_all add: status_after_def done_after_def)

lemma status_after_started: "status_after r \<noteq> NotStarted"
  by (cases r) (simp_all add: status_after_def)

lemma run1_nonneg: "0 \<le> run1 g"
  by (cases g) simp_all

lemma pump_inv_start: "pump_inv (pump_start m ping0 c)"
  by (simp add: pump_inv_def pump_start_def running3_def)

lemma pump_inv_loop_update:
  assumes "pump_inv y"
  shows "termsize_st y = Running \<Longrightarrow>
           pump_inv (y\<lparr>pump := c, termsize_st := status_after r, wg := wg y - done_after r, crashed := b\<rparr>)"
    and "read_st y = Running \<Longrightarrow>
           pump_inv (y\<lparr>pump := c, read_st := status_after r, wg := wg y - done_after r, crashed := b\<rparr>)"
    and "write_st y = Running \<Longrightarrow>
           pump_inv (y\<lparr>pump := c, wbuff := w, write_st := status_after r, wg := wg y - done_after r, crashed := b\<rparr>)"
  using assms run1_nonneg [of "termsize_st y"] run1_nonneg [of "read_st y"] run1_nonneg [of "write_st y"]
  by (auto simp add: pump_inv_def running3_def run1_after status_after_started)

lemma pump_inv_step: "pump_inv y \<Longrightarrow> pump_inv (sys_step ev y)"
proof (cases ev)
  case (RunTermsize e)
  assume "pump_inv y"
  with RunTermsize show ?thesis
    by (simp add: sys_step_def pump_inv_loop_update split: prod.splits)
next
  case (RunRead e)
  assume "pump_inv y"
  with RunRead show ?thesis
    by (simp add: sys_step_def pump_inv_loop_update split: prod.splits)
next
  case (RunWrite e)
  assume "pump_inv y"
  with RunWrite show ?thesis
    by (simp add: sys_step_def pump_inv_loop_update split: prod.splits)
next
  case RunPing
  assume "pump_inv y"
  with RunPing show ?thesis
    by (auto simp add: sys_step_def pump_inv_def running3_def split: prod.splits)
next
  case (RunTermsizeInit q)
  assume "pump_inv y"
  with RunTermsizeInit show ?thesis
    by (auto simp add: sys_step_def pump_inv_def running3_def)
next
  case CallExitLoop
  assume "pump_inv y"
  with CallExitLoop show ?thesis
    by (auto simp add: sys_step_def pump_inv_def running3_def split: sum.splits)
next
  case LoopWait
  assume "pump_inv y"
  with LoopWait show ?thesis
    by (auto simp add: sys_step_def pump_inv_def running3_def)
qed

lemma pump_inv_run: "pump_inv y \<Longrightarrow> pump_inv (run_system sch y)"
  by (induction sch arbitrary: y) (simp_all add: pump_inv_step)

lemma ping_st_step: "ping_st (sys_step ev y) = ping_st y"
proof (cases ev)
  case RunPing
  then show ?thesis
    by (simp add: sys_step_def pingLoop_step_def status_after_def)
next
  case CallExitLoop
  then show ?thesis
    by (simp add: sys_step_def ExitLoop_def openPoison_closes)
qed (simp_all add: sys_step_def split: prod.splits)

lemma ping_st_run: "ping_st (run_system sch y) = ping_st y"
  by (induction sch arbitrary: y) (simp_all add: ping_st_step)

lemma run_system_append: "run_system (xs @ ys) y = run_system ys (run_system xs y)"
  by (induction xs arbitrary: y) simp_all

lemma pump_inv_finished:
  assumes "pump_inv y" and "returned y"
  shows "termsize_st y = Finished \<and> read_st y = Finished \<and> write_st y = Finished"
proof -
  from assms have z: "run1 (termsize_st y) + run1 (read_st y) + run1 (write_st y) = 0"
    and n: "termsize_st y \<noteq> NotStarted" "read_st y \<noteq> NotStarted" "write_st y \<noteq> NotStarted"
    by (simp_all add: pump_inv_def running3_def)
  from z run1_nonneg [of "termsize_st y"] run1_nonneg [of "read_st y"] run1_nonneg [of "write_st y"]
  have "run1 (termsize_st y) = 0" "run1 (read_st y) = 0" "run1 (write_st y) = 0" by linarith+
  with n show ?thesis
    by (cases "termsize_st y"; cases "read_st y"; cases "write_st y") simp_all
qed

lemma send_resize_poison: "poison (send_resize m q s) = poison s"
  by (simp add: send_resize_def write_frame_def split: option.splits)

lemma termsize_poison_closed:
  "poison s = Closed \<Longrightarrow> termsizeLoop_step m ResizePoison s = (s, Return killed)"
  by (simp add: termsizeLoop_step_def return_die_closed)

lemma read_poison_closed:
  "poison s = Closed \<Longrightarrow> readLoop_step m ReadPoison s = (s, Return killed)"
  by (simp add: readLoop_step_def return_die_closed)

lemma write_poison_closed:
  "poison s = Closed \<Longrightarrow> writeLoop_step m e (s, b) = ((s, b), Return killed)"
  by (simp add: writeLoop_step_def with_buff_def return_die_closed)

lemma started_cases:
  assumes "pump_inv y"
  shows "termsize_st y = Running \<or> termsize_st y = Finished"
    and "read_st y = Running \<or> read_st y = Finished"
    and "write_st y = Running \<or> write_st y = Finished"
proof -
  from assms have n: "termsize_st y \<noteq> NotStarted" "read_st y \<noteq> NotStarted" "write_st y \<noteq> NotStarted"
    by (simp_all add: pump_inv_def)
  from n(1) show "termsize_st y = Running \<or> termsize_st y = Finished" by (cases "termsize_st y") simp_all
  from n(2) show "read_st y = Running \<or> read_st y = Finished" by (cases "read_st y") simp_all
  from n(3) show "write_st y = Running \<or> write_st y = Finished" by (cases "write_st y") simp_all
qed

lemma step_termsize_init:
  assumes "poison (pump y) = Closed" "\<not> crashed y" "pump_inv y"
  shows "poison (pump (sys_step (RunTermsizeInit q) y)) = Closed \<and> \<not> crashed (sys_step (RunTermsizeInit q) y) \<and>
         pump_inv (sys_step (RunTermsizeInit q) y) \<and>
         (termsize_st (sys_step (RunTermsizeInit q) y) = Running \<longrightarrow> resized (sys_step (RunTermsizeInit q) y))"
proof -
  have "sys_step (RunTermsizeInit q) y =
          (if termsize_st y = Running \<and> \<not> resized y then
             y\<lparr>pump := send_resize (table y) q (pump y), resized := True\<rparr>
           else y)"
    using assms(2) by (simp add: sys_step_def)
  with assms(1,2) pump_inv_step [OF assms(3), of "RunTermsizeInit q"] show ?thesis
    by (simp add: send_resize_poison)
qed

lemma step_termsize_poison:
  assumes "poison (pump y) = Closed" "\<not> crashed y" "pump_inv y" "termsize_st y = Running \<longrightarrow> resized y"
  shows "poison (pump (sys_step (RunTermsize ResizePoison) y)) = Closed \<and>
         \<not> crashed (sys_step (RunTermsize ResizePoison) y) \<and>
         pump_inv (sys_step (RunTermsize ResizePoison) y) \<and>
         termsize_st (sys_step (RunTermsize ResizePoison) y) = Finished"
proof -
  have "sys_step (RunTermsize ResizePoison) y =
          (if termsize_st y = Running then
             y\<lparr>pump := pump y, termsize_st := Finished, wg := wg y - 1, crashed := False\<rparr>
           else y)"
    using assms(1,2,4)
    by (simp add: sys_step_def termsize_poison_closed status_after_def done_after_def crash_after_def)
  with assms(1,2) started_cases(1) [OF assms(3)]
    pump_inv_step [OF assms(3), of "RunTermsize ResizePoison"] show ?thesis
    by auto
qed

lemma step_read_poison:
  assumes "poison (pump y) = Closed" "\<not> crashed y" "pump_inv y"
  shows "poison (pump (sys_step (RunRead ReadPoison) y)) = Closed \<and>
         \<not> crashed (sys_step (RunRead ReadPoison) y) \<and>
         pump_inv (sys_step (RunRead ReadPoison) y) \<and>
         read_st (sys_step (RunRead ReadPoison) y) = Finished \<and>
         termsize_st (sys_step (RunRead ReadPoison) y) = termsize_st y"
proof -
  have "sys_step (RunRead ReadPoison) y =
          (if read_st y = Running then
             y\<lparr>pump := pump y, read_st := Finished, wg := wg y - 1, crashed := False\<rparr>
           else y)"
    using assms(1,2)
    by (simp add: sys_step_def read_poison_closed status_after_def done_after_def crash_after_def)
  with assms(1,2) started_cases(2) [OF assms(3)]
    pump_inv_step [OF assms(3), of "RunRead ReadPoison"] show ?thesis
    by auto
qed

lemma step_write_poison:
  assumes "poison (pump y) = Closed" "\<not> crashed y" "pump_inv y"
  shows "poison (pump (sys_step (RunWrite e) y)) = Closed \<and>
         \<not> crashed (sys_step (RunWrite e) y) \<and>
         pump_inv (sys_step (RunWrite e) y) \<and>
         write_st (sys_step (RunWrite e) y) = Finished \<and>
         termsize_st (sys_step (RunWrite e) y) = termsize_st y \<and>
         read_st (sys_step (RunWrite e) y) = read_st y"
proof -
  have "sys_step (RunWrite e) y =
          (if write_st y = Running then
             y\<lparr>pump := pump y, wbuff := wbuff y, write_st := Finished, wg := wg y - 1, crashed := False\<rparr>
           else y)"
    using assms(1,2)
    by (simp add: sys_step_def write_poison_closed status_after_def done_after_def crash_after_def)
  with assms(1,2) started_cases(3) [OF assms(3)]
    pump_inv_step [OF assms(3), of "RunWrite e"] show ?thesis
    by auto
qed

lemma step_loop_wait: "\<not> crashed y \<Longrightarrow> wg y = 0 \<Longrightarrow> returned (sys_step LoopWait y)"
  by (simp add: sys_step_def)

lemma quiesce_returns:
  assumes "poison (pump y) = Closed" "\<not> crashed y" "pump_inv y"
  shows "returned (run_system (quiesce q e) y)"
proof -
  let ?y1 = "sys_step (RunTermsizeInit q) y"
  let ?y2 = "sys_step (RunTermsize ResizePoison) ?y1"
  let ?y3 = "sys_step (RunRead ReadPoison) ?y2"
  let ?y4 = "sys_step (RunWrite e) ?y3"
  from step_termsize_init [OF assms, of q] have 1: "poison (pump ?y1) = Closed" "\<not> crashed ?y1"
    "pump_inv ?y1" "termsize_st ?y1 = Running \<longrightarrow> resized ?y1" by simp_all
  from step_termsize_poison [OF 1] have 2: "poison (pump ?y2) = Closed" "\<not> crashed ?y2"
    "pump_inv ?y2" and t2: "termsize_st ?y2 = Finished" by simp_all
  from step_read_poison [OF 2] t2 have 3: "poison (pump ?y3) = Closed" "\<not> crashed ?y3"
    "pump_inv ?y3" and t3: "termsize_st ?y3 = Finished" "read_st ?y3 = Finished" by simp_all
  from step_write_poison [OF 3, of e] t3 have 4: "\<not> crashed ?y4" "pump_inv ?y4"
    and t4: "termsize_st ?y4 = Finished" "read_st ?y4 = Finished" "write_st ?y4 = Finished" by simp_all
  from 4 t4 have "wg ?y4 = 0" by (simp add: pump_inv_def running3_def)
  with 4 have "returned (sys_step LoopWait ?y4)" by (simp add: step_loop_wait)
  then show ?thesis by (simp add: quiesce_def)
qed

lemma url_check_client0: "url_check ok_world client0 = None"
  by (simp add: url_check_def ok_world_def client0_def url_Parse_def simple_lib_def getScheme_def
      is_alpha_def is_scheme_punct_def ord_def to_lower_def stringContainsCTLByte_def Let_def)

lemma FindStringSubmatch_ok_body: "FindStringSubmatch ok_body = Some ''abc''"
  by (simp add: ok_body_def match_here_def token_prefix_def quote_def newline_def Let_def)

lemma GetAuthToken_ok: "GetAuthToken ok_world client0 = (Inr ''abc'', [HttpGet])"
  using url_check_client0 FindStringSubmatch_ok_body
  by (simp add: GetAuthToken_def) (simp add: ok_world_def)

lemma url_check_URL: "URL c' = URL c \<Longrightarrow> url_check w c' = url_check w c"
  by (simp add: url_check_def)

lemma Connect_ok:
  "Connect ok_world client0 = ((None, client1), [HttpGet, WsDial, Sleep 100, Go ''pingLoop''])"
proof -
  have u: "url_check ok_world (client0\<lparr>conn_writes := [], has_Conn := True, Connected := True,
              message := Some (initMessageType (V2 client0))\<rparr>) = None"
    using url_check_client0 by (simp add: url_check_def)
  have w: "dial_ok ok_world" "negotiation_write_ok ok_world" "queryJSON ok_world = negotiation_json"
    by (simp_all add: ok_world_def)
  have v: "V2 client0 = False" by (simp add: client0_def)
  show ?thesis
    using GetAuthToken_ok url_check_client0 u w
    by (simp add: Connect_def Let_def write_frame_def client1_def v)
qed

lemma Loop_enter_ok:
  "Loop_enter ok_world NotStarted client0 =
     (Inr (pump_start (initMessageType False) Running client1), client1,
      [HttpGet, WsDial, Sleep 100, Go ''pingLoop'', Go ''termsizeLoop'', Go ''readLoop'', Go ''writeLoop''])"
proof -
  have c: "\<not> Connected client0" by (simp add: client0_def)
  have w: "stdout_is_console ok_world" "set_raw_ok ok_world" by (simp_all add: ok_world_def)
  have m: "message client1 = Some (initMessageType False)" by (simp add: client1_def)
  show ?thesis
    using c w m Connect_ok by (simp add: Loop_enter_def)
qed

lemma run_sched0:
  "returned (run_system sched0 (pump_start (initMessageType False) Running client1)) \<and>
   ping_st (run_system sched0 (pump_start (initMessageType False) Running client1)) = Running \<and>
   termsize_st (run_system sched0 (pump_start (initMessageType False) Running client1)) = Finished \<and>
   read_st (run_system sched0 (pump_start (initMessageType False) Running client1)) = Finished \<and>
   write_st (run_system sched0 (pump_start (initMessageType False) Running client1)) = Finished"
proof -
  let ?y0 = "pump_start (initMessageType False) Running client1"
  let ?y1 = "sys_step CallExitLoop ?y0"
  have 0: "pump_inv ?y0" by (rule pump_inv_start)
  have c0: "\<not> crashed ?y0" by (simp add: pump_start_def)
  have 1: "poison (pump ?y1) = Closed" "\<not> crashed ?y1"
    using c0 by (simp_all add: sys_step_def ExitLoop_def openPoison_closes)
  have i1: "pump_inv ?y1" using 0 by (rule pump_inv_step)
  let ?y2 = "run_system (quiesce None eof_event) ?y1"
  from quiesce_returns [OF 1 i1] have r: "returned ?y2" .
  have i2: "pump_inv ?y2" using i1 by (rule pump_inv_run)
  let ?y3 = "sys_step RunPing ?y2"
  have s: "run_system sched0 ?y0 = ?y3"
    by (simp add: sched0_def quiesce_def)
  have i3: "pump_inv ?y3" using i2 by (rule pump_inv_step)
  have p: "ping_st ?y3 = Running"
    by (simp add: ping_st_step ping_st_run) (simp add: pump_start_def)
  have "returned ?y3"
  proof -
    have "returned (sys_step RunPing y)" if "returned y" for y
      using that by (simp add: sys_step_def pingLoop_step_def status_after_def crash_after_def)
    with r show ?thesis by blast
  qed
  with pump_inv_finished [OF i3] p s show ?thesis by simp
qed

lemma readLoop_step_poison:
  "poison s = Closed \<Longrightarrow> poison (fst (readLoop_step m e s)) = Closed"
  by (simp add: readLoop_step_def return_openPoison_eq return_die_closed
      split: read_event.splits sum.splits list.splits option.splits s2c_kind.splits)

lemma termsizeLoop_step_poison:
  "poison s = Closed \<Longrightarrow> poison (fst (termsizeLoop_step m e s)) = Closed"
  by (simp add: termsizeLoop_step_def return_die_closed send_resize_poison split: termsize_event.splits)

lemma sys_step_poison:
  assumes "poison (pump y) = Closed"
  shows "poison (pump (sys_step ev y)) = Closed"
proof (cases ev)
  case (RunTermsizeInit q)
  with assms show ?thesis by (simp add: sys_step_def send_resize_poison)
next
  case (RunTermsize e)
  with assms termsizeLoop_step_poison [of "pump y" "table y" e]
  show ?thesis by (auto simp add: sys_step_def split: prod.splits)
next
  case (RunRead e)
  with assms readLoop_step_poison [of "pump y" "table y" e]
  show ?thesis by (auto simp add: sys_step_def split: prod.splits)
next
  case (RunWrite e)
  with assms show ?thesis by (simp add: sys_step_def write_poison_closed)
next
  case RunPing
  with assms show ?thesis by (simp add: sys_step_def pingLoop_step_def write_frame_def)
next
  case CallExitLoop
  with assms show ?thesis by (simp add: sys_step_def ExitLoop_def openPoison_closes)
next
  case LoopWait
  with assms show ?thesis by (simp add: sys_step_def)
qed

lemma run_system_poison:
  "poison (pump y) = Closed \<Longrightarrow> poison (pump (run_system sch y)) = Closed"
  by (induction sch arbitrary: y) (simp_all add: sys_step_poison)

lemma pingLoop_running: "snd (run_loop (pingLoop_step m) es s) = Continue"
  by (induction es arbitrary: s) (simp_all add: pingLoop_step_def)

text \<open>
  C1 (as stated, refuted). The claim says that all four loops exit and that \<open>Loop\<close>
  returns only after a completion acknowledgement from each of the four. \<open>Loop\<close> adds
  three to its wait group, for \<open>termsizeLoop\<close>, \<open>readLoop\<close> and \<open>writeLoop\<close>; \<open>pingLoop\<close> is
  started by \<open>Connect\<close> without the wait group and has no way out of its loop. Here a
  session is set up, \<open>ExitLoop\<close> is called, the three loops wind down and \<open>Loop\<close>
  returns \<open>nil\<close>, while \<open>pingLoop\<close> is still running.
\<close>

theorem loop_returns_with_ping_running:
  "Loop ok_world NotStarted sched0 client0 = Some None \<and>
   wg (pump_start (initMessageType False) Running client1) = 3 \<and>
   fst (Loop_enter ok_world NotStarted client0)
     = Inr (pump_start (initMessageType False) Running client1) \<and>
   returned (run_system sched0 (pump_start (initMessageType False) Running client1)) \<and>
   ping_st (run_system sched0 (pump_start (initMessageType False) Running client1)) = Running"
  using Loop_enter_ok run_sched0
  by (simp add: Loop_def) (simp add: pump_start_def)

text \<open>
  C1 (amended). Along every schedule of a pump started by \<open>Loop\<close>: \<open>Loop\<close> has returned
  only when \<open>termsizeLoop\<close>, \<open>readLoop\<close> and \<open>writeLoop\<close> have all finished (the wait group
  starts at three); \<open>pingLoop\<close> is in the state it had at the start, it never finishes
  (after any number of passes it has not returned); a closed poison channel stays
  closed; and once the poison channel is closed (and no panic has ended the process) the
  three loops finish at their next look at the channel and \<open>Loop\<close> returns.
\<close>

theorem pump_joins_three_loops:
  "(returned (run_system sch (pump_start m ping0 c)) \<longrightarrow>
      termsize_st (run_system sch (pump_start m ping0 c)) = Finished \<and>
      read_st (run_system sch (pump_start m ping0 c)) = Finished \<and>
      write_st (run_system sch (pump_start m ping0 c)) = Finished) \<and>
   wg (pump_start m ping0 c) = 3 \<and>
   ping_st (run_system sch (pump_start m ping0 c)) = ping0 \<and>
   snd (pingLoop m n s) = Continue \<and>
   (poison (pump (run_system sch (pump_start m ping0 c))) = Closed \<longrightarrow>
      poison (pump (run_system (sch @ sch') (pump_start m ping0 c))) = Closed) \<and>
   (poison (pump (run_system sch (pump_start m ping0 c))) = Closed \<and>
    \<not> crashed (run_system sch (pump_start m ping0 c)) \<longrightarrow>
      returned (run_system (sch @ quiesce q e) (pump_start m ping0 c)))"
proof -
  have g: "snd (pingLoop m n s) = Continue"
    by (simp add: pingLoop_def pingLoop_running)
  let ?y = "run_system sch (pump_start m ping0 c)"
  have i: "pump_inv ?y" by (rule pump_inv_run [OF pump_inv_start])
  have a: "returned ?y \<longrightarrow> termsize_st ?y = Finished \<and> read_st ?y = Finished \<and> write_st ?y = Finished"
    using pump_inv_finished [OF i] by blast
  have b: "wg (pump_start m ping0 c) = 3" by (simp add: pump_start_def)
  have p: "ping_st ?y = ping0" by (simp add: ping_st_run) (simp add: pump_start_def)
  have l: "poison (pump ?y) = Closed \<and> \<not> crashed ?y \<longrightarrow> returned (run_system (sch @ quiesce q e) (pump_start m ping0 c))"
    using quiesce_returns [OF _ _ i, of q e] by (simp add: run_system_append)
  have k: "poison (pump ?y) = Closed \<longrightarrow>
      poison (pump (run_system (sch @ sch') (pump_start m ping0 c))) = Closed"
    by (simp add: run_system_append run_system_poison)
  from a b p g k l show ?thesis by blast
qed

theorem pump_joins_three_loops_witness:
  "poison (pump (run_system [CallExitLoop] (pump_start (initMessageType False) Running client1))) = Closed \<and>
   \<not> crashed (run_system [CallExitLoop] (pump_start (initMessageType False) Running client1)) \<and>
   returned (run_system ([CallExitLoop] @ quiesce None eof_event)
      (pump_start (initMessageType False) Running client1)) \<and>
   termsize_st (run_system ([CallExitLoop] @ quiesce None eof_event)
      (pump_start (initMessageType False) Running client1)) = Finished \<and>
   read_st (run_system ([CallExitLoop] @ quiesce None eof_event)
      (pump_start (initMessageType False) Running client1)) = Finished \<and>
   write_st (run_system ([CallExitLoop] @ quiesce None eof_event)
      (pump_start (initMessageType False) Running client1)) = Finished \<and>
   ping_st (run_system ([CallExitLoop] @ quiesce None eof_event)
      (pump_start (initMessageType False) Running client1)) = Running"
proof -
  let ?y0 = "pump_start (initMessageType False) Running client1"
  have c0: "\<not> crashed ?y0" by (simp add: pump_start_def)
  have 1: "poison (pump (run_system [CallExitLoop] ?y0)) = Closed" "\<not> crashed (run_system [CallExitLoop] ?y0)"
    using c0 by (simp_all add: sys_step_def ExitLoop_def openPoison_closes)
  from 1 pump_joins_three_loops [where sch = "[CallExitLoop]" and m = "initMessageType False" and ?ping0.0 = Running and c = client1 and q = None and e = eof_event]
    pump_joins_three_loops [where sch = "[CallExitLoop] @ quiesce None eof_event" and m = "initMessageType False" and ?ping0.0 = Running and c = client1]
  show ?thesis by blast
qed

section \<open>Properties of the handshake\<close>

lemma match_here_Some:
  assumes "match_here s = Some tok"
  shows "\<exists>post. s = token_prefix @ tok @ [quote] @ post \<and> newline \<notin> set tok"
proof -
  let ?rest = "drop (length token_prefix) s"
  let ?line = "takeWhile (\<lambda>c. c \<noteq> newline) ?rest"
  from assms have p: "take (length token_prefix) s = token_prefix"
    and q: "quote \<in> set ?line"
    and t: "tok = rev (tl (dropWhile (\<lambda>c. c \<noteq> quote) (rev ?line)))"
    by (auto simp add: match_here_def Let_def split: if_splits)
  from p have s: "s = token_prefix @ ?rest"
    by (metis append_take_drop_id)
  let ?d = "dropWhile (\<lambda>c. c \<noteq> quote) (rev ?line)"
  from q have "?d \<noteq> []" by simp
  then have hd: "hd ?d = quote" using hd_dropWhile [of "\<lambda>c. c \<noteq> quote" "rev ?line"] by simp
  with \<open>?d \<noteq> []\<close> have d: "?d = quote # tl ?d" by (cases ?d) simp_all
  have "rev ?line = takeWhile (\<lambda>c. c \<noteq> quote) (rev ?line) @ ?d" by simp
  with d have "rev ?line = takeWhile (\<lambda>c. c \<noteq> quote) (rev ?line) @ quote # tl ?d" by simp
  then have "rev (rev ?line) = rev (takeWhile (\<lambda>c. c \<noteq> quote) (rev ?line) @ quote # tl ?d)" by simp
  then have line: "?line = tok @ [quote] @ rev (takeWhile (\<lambda>c. c \<noteq> quote) (rev ?line))"
    using t by simp
  have "newline \<notin> set ?line"
    by (auto dest: set_takeWhileD)
  with line have n: "newline \<notin> set tok" by (metis Un_iff set_append)
  have "?rest = ?line @ dropWhile (\<lambda>c. c \<noteq> newline) ?rest" by simp
  with line have "?rest = tok @ [quote] @ (rev (takeWhile (\<lambda>c. c \<noteq> quote) (rev ?line)) @ dropWhile (\<lambda>c. c \<noteq> newline) ?rest)"
    by (metis append.assoc)
  with s n show ?thesis by metis
qed

lemma match_here_pattern:
  assumes "newline \<notin> set tok"
  shows "match_here (token_prefix @ tok @ [quote] @ post) \<noteq> None"
proof -
  have nq: "quote \<noteq> newline" by (simp add: quote_def newline_def)
  have "takeWhile (\<lambda>c. c \<noteq> newline) (tok @ [quote] @ post)
          = tok @ takeWhile (\<lambda>c. c \<noteq> newline) ([quote] @ post)"
    by (rule takeWhile_append2) (use assms in auto)
  also have "\<dots> = tok @ quote # takeWhile (\<lambda>c. c \<noteq> newline) post"
    using nq by simp
  finally have "quote \<in> set (takeWhile (\<lambda>c. c \<noteq> newline) (tok @ [quote] @ post))" by simp
  then show ?thesis by (simp add: match_here_def Let_def)
qed

lemma FindStringSubmatch_Some:
  "FindStringSubmatch body = Some tok \<Longrightarrow> contains_token_pattern body"
proof (induction body)
  case Nil
  then show ?case by simp
next
  case (Cons c cs)
  show ?case
  proof (cases "match_here (c # cs)")
    case None
    with Cons have "contains_token_pattern cs" by simp
    then obtain pre t post where "cs = pre @ token_prefix @ t @ [quote] @ post" "newline \<notin> set t"
      unfolding contains_token_pattern_def by blast
    then have "c # cs = (c # pre) @ token_prefix @ t @ [quote] @ post \<and> newline \<notin> set t" by simp
    then show ?thesis unfolding contains_token_pattern_def by blast
  next
    case (Some t)
    from match_here_Some [OF Some] obtain post where
      "c # cs = [] @ token_prefix @ t @ [quote] @ post \<and> newline \<notin> set t" by auto
    then show ?thesis unfolding contains_token_pattern_def by blast
  qed
qed

lemma FindStringSubmatch_append:
  "match_here s \<noteq> None \<Longrightarrow> FindStringSubmatch (pre @ s) \<noteq> None"
proof (induction pre)
  case Nil
  then show ?case by (cases s) (auto simp add: match_here_def token_prefix_def)
next
  case (Cons c pre)
  then show ?case by (cases "match_here (c # pre @ s)") simp_all
qed

lemma FindStringSubmatch_None_iff:
  "FindStringSubmatch body = None \<longleftrightarrow> \<not> contains_token_pattern body"
proof
  assume "FindStringSubmatch body = None"
  show "\<not> contains_token_pattern body"
  proof
    assume "contains_token_pattern body"
    then obtain pre t post where b: "body = pre @ token_prefix @ t @ [quote] @ post" and n: "newline \<notin> set t"
      unfolding contains_token_pattern_def by blast
    from FindStringSubmatch_append [OF match_here_pattern [OF n, of post], of pre] b
    have "FindStringSubmatch body \<noteq> None" by simp
    with \<open>FindStringSubmatch body = None\<close> show False by simp
  qed
next
  assume "\<not> contains_token_pattern body"
  then show "FindStringSubmatch body = None"
    using FindStringSubmatch_Some by (cases "FindStringSubmatch body") auto
qed

text \<open>
  C4. When the GET for the token is answered with a status other than 200, or with a
  body that does not hold the pattern \<open>var gotty_auth_token = '...'\<close>, \<open>GetAuthToken\<close>
  returns an error, \<open>Connect\<close> returns that error having only done the GET (no dial, the
  client unchanged), and \<open>Loop\<close> on a client that is not connected returns the error
  without starting a goroutine.
\<close>

theorem auth_token_failure_aborts_handshake:
  assumes "url_check w c = None" and "new_request_ok w" and "http_do w = Some resp"
    and "StatusCode resp \<noteq> 200 \<or> (\<exists>body. Body resp = Some body \<and> \<not> contains_token_pattern body)"
  shows "GetAuthToken w c = (Inl (auth_token_error resp), [HttpGet]) \<and>
         Connect w c = ((Some (auth_token_error resp), c), [HttpGet]) \<and>
         WsDial \<notin> set (snd (Connect w c)) \<and>
         (\<not> Connected c \<longrightarrow>
            Loop_enter w ping0 c = (Inl (auth_token_error resp), c, [HttpGet]) \<and>
            Loop w ping0 sch c = Some (Some (auth_token_error resp)))"
proof -
  have g: "GetAuthToken w c = (Inl (auth_token_error resp), [HttpGet])"
  proof (cases "StatusCode resp \<noteq> 200")
    case True
    with assms(1-3) show ?thesis
      by (simp add: GetAuthToken_def auth_token_error_def)
  next
    case False
    with assms(4) obtain body where b: "Body resp = Some body" "\<not> contains_token_pattern body"
      by blast
    from b(2) have "FindStringSubmatch body = None"
      by (simp add: FindStringSubmatch_None_iff)
    with False b(1) assms(1-3) show ?thesis
      by (simp add: GetAuthToken_def auth_token_error_def)
  qed
  from g have k: "Connect w c = ((Some (auth_token_error resp), c), [HttpGet])"
    by (simp add: Connect_def)
  from k have l: "\<not> Connected c \<longrightarrow> Loop_enter w ping0 c = (Inl (auth_token_error resp), c, [HttpGet])"
    by (simp add: Loop_enter_def)
  then have "\<not> Connected c \<longrightarrow> Loop w ping0 sch c = Some (Some (auth_token_error resp))"
    by (simp add: Loop_def)
  with g k l show ?thesis by simp
qed

theorem auth_token_failure_aborts_handshake_witness:
  "Connect world_404 client0 = ((Some (UnknownStatusCode 404), client0), [HttpGet]) \<and>
   Loop world_404 NotStarted sched0 client0 = Some (Some (UnknownStatusCode 404)) \<and>
   Connect world_no_token client0 = ((Some CannotFetchAuthToken, client0), [HttpGet]) \<and>
   Loop_enter world_no_token NotStarted client0 = (Inl CannotFetchAuthToken, client0, [HttpGet])"
proof -
  have u: "url_check world_404 client0 = None" "url_check world_no_token client0 = None"
    using url_check_client0 by (simp_all add: url_check_def world_404_def world_no_token_def)
  have r: "new_request_ok world_404" "new_request_ok world_no_token"
    by (simp_all add: world_404_def world_no_token_def ok_world_def)
  have h1: "http_do world_404 = Some \<lparr>StatusCode = 404, Body = Some ''404 page not found''\<rparr>"
    by (simp add: world_404_def)
  have h2: "http_do world_no_token = Some \<lparr>StatusCode = 200, Body = Some ''<html></html>''\<rparr>"
    by (simp add: world_no_token_def)
  have "FindStringSubmatch ''<html></html>'' = None"
    by (simp add: match_here_def token_prefix_def)
  from iffD1 [OF FindStringSubmatch_None_iff this]
  have n: "\<not> contains_token_pattern ''<html></html>''" .
  have c: "\<not> Connected client0" by (simp add: client0_def)
  from auth_token_failure_aborts_handshake [OF u(1) r(1) h1, where ?ping0.0 = NotStarted and sch = sched0]
    auth_token_failure_aborts_handshake [OF u(2) r(2) h2, where ?ping0.0 = NotStarted and sch = sched0] n c
  show ?thesis by (simp add: auth_token_error_def)
qed

section \<open>Properties of ParseURL and NewClient\<close>






end
